theory Spec2Isabelle
  imports Complex_Main "HOL-Library.AList" "HOL-Library.Multiset"
begin

section \<open>JavaScript numbers and the Date arithmetic the dashboard relies on\<close>

text \<open>
  The dashboard's derivations run on JSON records. A JavaScript number is an IEEE double;
  the embedding takes a finite number as an exact rational (rounding and overflow to
  Infinity are not represented) and keeps \<open>NaN\<close> as a value of its own.
\<close>

datatype jsnum = Num rat | NaN

text \<open>
  What a record holds under \<open>reading\<close>: nothing at all (the property is absent and
  reads as \<open>undefined\<close>), JSON's \<open>null\<close>, a boolean or a number. A string in the place
  of a reading, which \<open>+\<close> would concatenate, is outside the embedding of the chart and
  comparison code; the capacity rows have their own value type below.
\<close>

datatype reading_value = Absent | JsonNull | JsonBool bool | JsonNum jsnum

text \<open>\<open>ToNumber\<close>: \<open>undefined\<close> becomes \<open>NaN\<close>, \<open>null\<close> becomes 0, \<open>true\<close> 1 and
  \<open>false\<close> 0.\<close>

fun to_number :: "reading_value \<Rightarrow> jsnum" where
  "to_number Absent = NaN"
| "to_number JsonNull = Num 0"
| "to_number (JsonBool b) = Num (if b then 1 else 0)"
| "to_number (JsonNum v) = v"

text \<open>\<open>a + b\<close> on numbers.\<close>

fun js_add :: "jsnum \<Rightarrow> jsnum \<Rightarrow> jsnum" where
  "js_add (Num a) (Num b) = Num (a + b)"
| "js_add _ _ = NaN"

text \<open>
  \<open>a / n\<close> where \<open>n\<close> is a count. Every division of the embedded code has a count of
  at least one behind a guard; \<open>0 / 0\<close> is \<open>NaN\<close>, and \<open>x / 0\<close> for another \<open>x\<close>, an
  infinity in JavaScript, does not occur.
\<close>

fun js_div :: "jsnum \<Rightarrow> nat \<Rightarrow> jsnum" where
  "js_div (Num a) n = (if n = 0 then NaN else Num (a / of_nat n))"
| "js_div NaN n = NaN"

text \<open>\<open>Math.max\<close> and \<open>Math.min\<close> of at least one argument, once the call has
  been made: each argument goes through \<open>ToNumber\<close>, and one \<open>NaN\<close> makes the
  result \<open>NaN\<close>.\<close>

fun js_max2 :: "jsnum \<Rightarrow> jsnum \<Rightarrow> jsnum" where
  "js_max2 (Num a) (Num b) = Num (max a b)"
| "js_max2 _ _ = NaN"

fun js_min2 :: "jsnum \<Rightarrow> jsnum \<Rightarrow> jsnum" where
  "js_min2 (Num a) (Num b) = Num (min a b)"
| "js_min2 _ _ = NaN"

definition math_max :: "reading_value \<Rightarrow> reading_value list \<Rightarrow> jsnum" where
  "math_max x xs = foldl js_max2 (to_number x) (map to_number xs)"

definition math_min :: "reading_value \<Rightarrow> reading_value list \<Rightarrow> jsnum" where
  "math_min x xs = foldl js_min2 (to_number x) (map to_number xs)"

text \<open>
  The local-time \<open>Date\<close> constructor, after ECMAScript's \<open>DayFromYear\<close>, \<open>MakeDay\<close>,
  \<open>MakeTime\<close> and \<open>MakeDate\<close>. The local zone is taken as a fixed offset \<open>tz\<close>, in
  milliseconds east of UTC (no daylight-saving changes); the constructor's reading of the
  years 0 to 99 as 1900 to 1999 is left out. Months count from 0, and a month outside
  0..11 carries into the year, as \<open>new Date(y, m - i, 1)\<close> needs.
\<close>

definition is_leap :: "int \<Rightarrow> bool" where
  "is_leap y \<longleftrightarrow> y mod 4 = 0 \<and> (y mod 100 \<noteq> 0 \<or> y mod 400 = 0)"

definition day_from_year :: "int \<Rightarrow> int" where
  "day_from_year y =
     365 * (y - 1970) + (y - 1969) div 4 - (y - 1901) div 100 + (y - 1601) div 400"

definition days_before_month :: "int \<Rightarrow> int \<Rightarrow> int" where
  "days_before_month y mn =
     (if mn = 0 then 0 else if mn = 1 then 31
      else (if is_leap y then 1 else 0) +
        (if mn = 2 then 59 else if mn = 3 then 90 else if mn = 4 then 120
         else if mn = 5 then 151 else if mn = 6 then 181 else if mn = 7 then 212
         else if mn = 8 then 243 else if mn = 9 then 273 else if mn = 10 then 304
         else 334))"

definition make_day :: "int \<Rightarrow> int \<Rightarrow> int \<Rightarrow> int" where
  "make_day year month date =
     (let ym = year + month div 12; mn = month mod 12
      in day_from_year ym + days_before_month ym mn + date - 1)"

definition ms_per_day :: int where
  "ms_per_day = 86400000"

definition local_date :: "int \<Rightarrow> int \<Rightarrow> int \<Rightarrow> int \<Rightarrow> int \<Rightarrow> int \<Rightarrow> int \<Rightarrow> int" where
  "local_date tz year month date h mi s =
     make_day year month date * ms_per_day + (h * 3600000 + mi * 60000 + s * 1000) - tz"

section \<open>Monthly comparison (frontend/app/macros/page.tsx)\<close>

text \<open>
  One reading of the backend: \<open>created\<close> is the instant the ISO timestamp denotes
  (\<open>new Date(entry.created).getTime()\<close>, milliseconds since the epoch) in the comparison
  and temperature code and the timestamp string itself in the power chart, \<open>location\<close>
  the sensor's name, \<open>reading\<close> the sample, which a malformed record may lack or hold
  as \<open>null\<close>. A timestamp that does not parse and a location that is no string are
  outside the embedding.
\<close>

record 't entry =
  created :: 't
  location :: string
  reading :: reading_value

text \<open>\<open>String.prototype.endsWith\<close>: the search string has to fit, and the last
  characters have to be it.\<close>

definition endsWith :: "string \<Rightarrow> string \<Rightarrow> bool" where
  "endsWith s t \<longleftrightarrow> length t \<le> length s \<and> drop (length s - length t) s = t"

text \<open>\<open>calculateMedian\<close> (lines 40 to 47), on the \<open>number[]\<close> of its signature. The
  comparator \<open>a - b\<close> orders numbers ascending.\<close>

definition calculateMedian :: "rat list \<Rightarrow> rat" where
  "calculateMedian values =
     (if length values = 0 then 0
      else let sorted = sort values; mid = length sorted div 2
           in if length sorted mod 2 = 0 then (sorted ! (mid - 1) + sorted ! mid) / 2
              else sorted ! mid)"

text \<open>
  The readings of a group as numbers, when every one of them is a finite number, as the
  signature of \<open>calculateMedian\<close> has it. When one is missing or \<open>NaN\<close> the comparator
  returns \<open>NaN\<close> and the order \<open>Array.prototype.sort\<close> leaves is up to the engine;
  a \<open>null\<close> or a boolean can come out as the middle element itself. The embedding gives
  no median in these cases.
\<close>

fun finite_values :: "reading_value list \<Rightarrow> rat list option" where
  "finite_values [] = Some []"
| "finite_values (JsonNum (Num x) # vs) = map_option ((#) x) (finite_values vs)"
| "finite_values (_ # vs) = None"

text \<open>The per-sensor accumulator of \<open>calculateSensorAverages\<close> (lines 111 to 128).
  \<open>grouped\<close> is an object used as a dictionary: its keys keep the order they were
  first set in. The routine is applied to the hot and the cold group only, whose
  locations end in \<open>-up\<close> or \<open>-down\<close>: none of them is an integer-like key, which an
  object lists first, and none is a name that every object inherits, for which
  \<open>!grouped[location]\<close> would be false from the start.\<close>

record acc =
  sum :: jsnum
  count :: nat
  readings :: "reading_value list"

definition grouped_step :: "(string \<times> acc) list \<Rightarrow> int entry \<Rightarrow> (string \<times> acc) list" where
  "grouped_step grouped e =
     (let a = (case map_of grouped (location e) of
                 None \<Rightarrow> \<lparr>sum = Num 0, count = 0, readings = []\<rparr>
               | Some a \<Rightarrow> a)
      in AList.update (location e)
           \<lparr>sum = js_add (sum a) (to_number (reading e)),
            count = count a + 1,
            readings = readings a @ [reading e]\<rparr> grouped)"

definition calculateSensorAverages ::
    "int entry list \<Rightarrow> (string \<times> acc) list \<times> (string \<times> jsnum) list" where
  "calculateSensorAverages data =
     (let grouped = foldl grouped_step [] data
      in (grouped, map (\<lambda>(l, a). (l, js_div (sum a) (count a))) grouped))"

text \<open>Lines 134 to 142: the mean of the per-sensor averages, 0 for no sensor.\<close>

definition overall_avg :: "(string \<times> jsnum) list \<Rightarrow> jsnum" where
  "overall_avg averages =
     (let vals = map snd averages
      in if length vals > 0 then js_div (foldl js_add (Num 0) vals) (length vals)
         else Num 0)"

text \<open>
  What the routine can throw once the readings are fetched. A spread call
  \<open>Math.max(...xs)\<close> passes every element of \<open>xs\<close> as an argument, and an engine
  takes only so many arguments in a call: beyond its limit the call throws a
  \<open>RangeError\<close>. The limit differs between engines (and with the stack that is left), so
  it is the parameter \<open>arglim\<close> of the embedding: a call with more than \<open>arglim\<close> arguments
  throws.
\<close>

datatype exn = RangeError

text \<open>Lines 145 to 151: peak and bottom over the raw readings, 0 for none.\<close>

definition peak :: "nat \<Rightarrow> reading_value list \<Rightarrow> exn + jsnum" where
  "peak arglim rs =
     (case rs of
        [] \<Rightarrow> Inr (Num 0)
      | x # xs \<Rightarrow> if arglim < length rs then Inl RangeError else Inr (math_max x xs))"

definition bottom :: "nat \<Rightarrow> reading_value list \<Rightarrow> exn + jsnum" where
  "bottom arglim rs =
     (case rs of
        [] \<Rightarrow> Inr (Num 0)
      | x # xs \<Rightarrow> if arglim < length rs then Inl RangeError else Inr (math_min x xs))"

text \<open>
  One element of \<open>results\<close> (lines 159 to 174). \<open>month\<close> is the year and month index
  that the label \<open>monthName\<close> spells out (\<open>(2024, 2)\<close> for March 2024); a median is
  \<open>None\<close> where the embedding gives none.
\<close>

record monthly_stat =
  month :: "int \<times> int"
  hotData :: "int entry list"
  coldData :: "int entry list"
  hotSensors :: "string list"
  coldSensors :: "string list"
  overallHotAvg :: jsnum
  overallColdAvg :: jsnum
  hotPeak :: jsnum
  hotBottom :: jsnum
  coldPeak :: jsnum
  coldBottom :: jsnum
  hotMedian :: "rat option"
  coldMedian :: "rat option"
  totalReadings :: nat

text \<open>
  Lines 75 to 77. \<open>targetDate\<close> is the first day of the month \<open>i\<close> months back; its
  \<open>getFullYear()\<close> and \<open>getMonth()\<close> are the normalised year and month index.
  \<open>monthEnd\<close> is day 0 of the following month, that is the month's last day, at 23:59:59.
\<close>

definition target_month :: "int \<Rightarrow> int \<Rightarrow> nat \<Rightarrow> int \<times> int" where
  "target_month year mon i = (year + (mon - int i) div 12, (mon - int i) mod 12)"

definition monthStart :: "int \<Rightarrow> int \<times> int \<Rightarrow> int" where
  "monthStart tz t = local_date tz (fst t) (snd t) 1 0 0 0"

definition monthEnd :: "int \<Rightarrow> int \<times> int \<Rightarrow> int" where
  "monthEnd tz t = local_date tz (fst t) (snd t + 1) 0 23 59 59"

text \<open>Lines 87 to 90: the readings of the month.\<close>

definition month_filter :: "int \<Rightarrow> int \<times> int \<Rightarrow> int entry list \<Rightarrow> int entry list" where
  "month_filter tz t allData =
     filter (\<lambda>e. created e \<ge> monthStart tz t \<and> created e \<le> monthEnd tz t) allData"

text \<open>Lines 95 to 104: hot sensors end in \<open>-up\<close>, cold ones in \<open>-down\<close>.\<close>

definition separate_step ::
    "int entry list \<times> int entry list \<Rightarrow> int entry \<Rightarrow> int entry list \<times> int entry list" where
  "separate_step hc e =
     (if endsWith (location e) ''-up'' then (fst hc @ [e], snd hc)
      else if endsWith (location e) ''-down'' then (fst hc, snd hc @ [e])
      else hc)"

definition separate :: "int entry list \<Rightarrow> int entry list \<times> int entry list" where
  "separate monthData = foldl separate_step ([], []) monthData"

text \<open>\<open>[...new Set(xs)]\<close>: the distinct elements, in the order of their first occurrence.\<close>

definition unique :: "'a list \<Rightarrow> 'a list" where
  "unique xs = rev (remdups (rev xs))"

text \<open>
  The body of the loop over the months (lines 75 to 174): the record that is pushed, or
  the exception that one of the four spread calls throws before anything is pushed.
\<close>

definition month_stat :: "nat \<Rightarrow> int \<Rightarrow> int \<times> int \<Rightarrow> int entry list \<Rightarrow> exn + monthly_stat" where
  "month_stat arglim tz t allData =
     (let monthData = month_filter tz t allData;
          hotSensorData = fst (separate monthData);
          coldSensorData = snd (separate monthData);
          allHotReadings = map reading hotSensorData;
          allColdReadings = map reading coldSensorData
      in case peak arglim allHotReadings of Inl err \<Rightarrow> Inl err | Inr hp \<Rightarrow>
        (case bottom arglim allHotReadings of Inl err \<Rightarrow> Inl err | Inr hb \<Rightarrow>
        (case peak arglim allColdReadings of Inl err \<Rightarrow> Inl err | Inr cp \<Rightarrow>
        (case bottom arglim allColdReadings of Inl err \<Rightarrow> Inl err | Inr cb \<Rightarrow>
           Inr \<lparr>month = t,
                hotData = hotSensorData,
                coldData = coldSensorData,
                hotSensors = unique (map location hotSensorData),
                coldSensors = unique (map location coldSensorData),
                overallHotAvg = overall_avg (snd (calculateSensorAverages hotSensorData)),
                overallColdAvg = overall_avg (snd (calculateSensorAverages coldSensorData)),
                hotPeak = hp,
                hotBottom = hb,
                coldPeak = cp,
                coldBottom = cb,
                hotMedian = map_option calculateMedian (finite_values allHotReadings),
                coldMedian = map_option calculateMedian (finite_values allColdReadings),
                totalReadings = length monthData\<rparr>))))"

text \<open>
  The loop \<open>for (let i = 0; i < months; i++)\<close> over the offsets that are left, with the
  \<open>results\<close> pushed so far: an exception ends it.
\<close>

fun month_loop ::
    "nat \<Rightarrow> int \<Rightarrow> int \<Rightarrow> int \<Rightarrow> int entry list \<Rightarrow> nat list \<Rightarrow> monthly_stat list \<Rightarrow>
     exn + monthly_stat list" where
  "month_loop arglim tz year mon allData [] results = Inr results"
| "month_loop arglim tz year mon allData (i # rest) results =
     (case month_stat arglim tz (target_month year mon i) allData of
        Inl err \<Rightarrow> Inl err
      | Inr s \<Rightarrow> month_loop arglim tz year mon allData rest (results @ [s]))"

text \<open>
  \<open>runDH3TempComparison\<close> (lines 49 to 186) once the readings are fetched: \<open>year\<close> and
  \<open>mon\<close> are \<open>now.getFullYear()\<close> and \<open>now.getMonth()\<close>, \<open>months\<close> the parsed
  selection. The loop pushes the current month first; the list is reversed and becomes
  \<open>monthlyData\<close>. When the loop throws, the \<open>catch\<close> block sets the error message
  and \<open>monthlyData\<close> stays the empty list it was set to at the start: the result
  \<open>Inl\<close> stands for that outcome, in which no record is shown.
\<close>

definition runDH3TempComparison ::
    "nat \<Rightarrow> int \<Rightarrow> int \<Rightarrow> int \<Rightarrow> int \<Rightarrow> int entry list \<Rightarrow> exn + monthly_stat list" where
  "runDH3TempComparison arglim tz year mon months allData =
     (case month_loop arglim tz year mon allData [0..<nat months] [] of
        Inl err \<Rightarrow> Inl err
      | Inr results \<Rightarrow> Inr (rev results))"

section \<open>Power capacity (frontend/components/power-capacity-card.tsx)\<close>

text \<open>
  The value a property of a capacity row may hold once the JSON is parsed. The interface
  \<open>PowerCapacityData\<close> promises numbers; the code tests the type at run time, so the
  embedding keeps the other kinds of value.
\<close>

datatype jsval = Undefined | Null | Boolean bool | String string | Number jsnum

datatype suffix = Planned | Live | Maximum | Available

fun suffix_name :: "suffix \<Rightarrow> string" where
  "suffix_name Planned = ''planned''"
| "suffix_name Live = ''live''"
| "suffix_name Maximum = ''max''"
| "suffix_name Available = ''available''"

text \<open>
  A row: \<open>props\<close> is the lookup \<open>row[key]\<close> for the zone properties, \<open>Undefined\<close>
  for a key the row does not have.
\<close>

record capacity_row =
  row_month :: string
  props :: "string \<Rightarrow> jsval"
  auto_saved :: "bool option"
  saved_date :: "string option"

definition dhKeys :: "string list" where
  "dhKeys = [''dh1'', ''dh2'', ''dh3'', ''dh4'', ''dh5'']"

text \<open>\<open>typeof value === 'number' && !Number.isNaN(value) ? value : 0\<close>\<close>

fun number_or_zero :: "jsval \<Rightarrow> rat" where
  "number_or_zero (Number (Num x)) = x"
| "number_or_zero _ = 0"

text \<open>The template string \<open>`${dh}_${suffix}`\<close>.\<close>

definition field_key :: "string \<Rightarrow> suffix \<Rightarrow> string" where
  "field_key dh s = dh @ ''_'' @ suffix_name s"

text \<open>\<open>sumForRow\<close> (lines 102 to 110).\<close>

definition sumForRow :: "capacity_row \<Rightarrow> suffix \<Rightarrow> rat" where
  "sumForRow row s =
     foldl (\<lambda>sum dh. sum + number_or_zero (props row (field_key dh s))) 0 dhKeys"

text \<open>\<open>getFieldValue\<close> (lines 113 to 124).\<close>

definition getFieldValue :: "capacity_row \<Rightarrow> string \<Rightarrow> suffix \<Rightarrow> rat" where
  "getFieldValue row siteKey s =
     (if siteKey = ''total'' then sumForRow row s
      else number_or_zero (props row (field_key siteKey s)))"

text \<open>
  \<open>Number.prototype.toFixed(2)\<close>. A cell of the CSV is a text; for a number of
  magnitude \<open>10^21\<close> and more \<open>toFixed\<close> returns the exponent notation of
  \<open>Number::toString\<close>, whose digits depend on the binary representation: the embedding
  keeps such a cell as \<open>Exponential x\<close> and does not spell it out.
\<close>

datatype cell = Text string | Exponential rat

fun digits :: "nat \<Rightarrow> string" where
  "digits n =
     (if n < 10 then [''0123456789'' ! n]
      else digits (n div 10) @ [''0123456789'' ! (n mod 10)])"

declare digits.simps [simp del]

text \<open>
  The steps of \<open>toFixed\<close> for two fraction digits: \<open>n\<close> is the integer with \<open>n / 100\<close>
  closest to \<open>x\<close>, the larger one on a tie; its digits are padded with zeros to three
  and the point goes before the last two.
\<close>

definition fixed2 :: "rat \<Rightarrow> string" where
  "fixed2 x =
     (let s = (if x < 0 then ''-'' else '''');
          a = (if x < 0 then - x else x);
          n = nat \<lfloor>a * 100 + 1 / 2\<rfloor>;
          m = digits n;
          m = (if length m \<le> 2 then replicate (3 - length m) (CHR ''0'') @ m else m);
          k = length m
      in s @ take (k - 2) m @ ''.'' @ drop (k - 2) m)"

fun toFixed2 :: "jsnum \<Rightarrow> cell" where
  "toFixed2 NaN = Text ''NaN''"
| "toFixed2 (Num x) = (if 10 ^ 21 \<le> \<bar>x\<bar> then Exponential x else Text (fixed2 x))"

text \<open>
  \<open>(row.dh1_planned ?? 0).toFixed(2)\<close>: \<open>null\<close> and \<open>undefined\<close> give way to 0; a
  string or a boolean has no \<open>toFixed\<close>, and the call throws a \<open>TypeError\<close>
  (\<open>None\<close>).
\<close>

fun zone_cell :: "jsval \<Rightarrow> cell option" where
  "zone_cell Undefined = Some (toFixed2 (Num 0))"
| "zone_cell Null = Some (toFixed2 (Num 0))"
| "zone_cell (Number v) = Some (toFixed2 v)"
| "zone_cell (Boolean b) = None"
| "zone_cell (String s) = None"

definition headers :: "string list" where
  "headers =
     [''Month'',
      ''DH1 Planned (kW)'', ''DH1 Live (kW)'', ''DH1 Max (kW)'', ''DH1 Available (kW)'',
      ''DH2 Planned (kW)'', ''DH2 Live (kW)'', ''DH2 Max (kW)'', ''DH2 Available (kW)'',
      ''DH3 Planned (kW)'', ''DH3 Live (kW)'', ''DH3 Max (kW)'', ''DH3 Available (kW)'',
      ''DH4 Planned (kW)'', ''DH4 Live (kW)'', ''DH4 Max (kW)'', ''DH4 Available (kW)'',
      ''DH5 Planned (kW)'', ''DH5 Live (kW)'', ''DH5 Max (kW)'', ''DH5 Available (kW)'',
      ''Total Planned (kW)'', ''Total Live (kW)'', ''Total Max (kW)'', ''Total Available (kW)'',
      ''Auto Saved'', ''Saved Date'']"

text \<open>The twenty zone properties in the order of lines 149 to 153.\<close>

definition zone_columns :: "string list" where
  "zone_columns =
     [''dh1_planned'', ''dh1_live'', ''dh1_max'', ''dh1_available'',
      ''dh2_planned'', ''dh2_live'', ''dh2_max'', ''dh2_available'',
      ''dh3_planned'', ''dh3_live'', ''dh3_max'', ''dh3_available'',
      ''dh4_planned'', ''dh4_live'', ''dh4_max'', ''dh4_available'',
      ''dh5_planned'', ''dh5_live'', ''dh5_max'', ''dh5_available'']"

text \<open>One element of \<open>rows\<close> (lines 141 to 158); \<open>None\<close> when a cell throws.\<close>

definition csv_row :: "capacity_row \<Rightarrow> cell list option" where
  "csv_row row =
     (let total_planned = sumForRow row Planned;
          total_live = sumForRow row Live;
          total_max = sumForRow row Maximum;
          total_available = sumForRow row Available
      in case those (map (\<lambda>key. zone_cell (props row key)) zone_columns) of
           None \<Rightarrow> None
         | Some zones \<Rightarrow>
             Some ([Text (row_month row)] @ zones @
               [toFixed2 (Num total_planned), toFixed2 (Num total_live),
                toFixed2 (Num total_max), toFixed2 (Num total_available),
                Text (if auto_saved row = Some True then ''Yes'' else ''No''),
                Text (case saved_date row of None \<Rightarrow> '''' | Some d \<Rightarrow> d)]))"

text \<open>
  \<open>downloadHistoryCSV\<close> (lines 127 to 163) up to the header and the rows that are
  joined into the file: nothing is produced for an empty history, and a cell that throws
  ends the call.
\<close>

datatype csv_outcome = NoDownload | TypeError | Download "string list" "cell list list"

definition downloadHistoryCSV :: "capacity_row list \<Rightarrow> csv_outcome" where
  "downloadHistoryCSV historyData =
     (if length historyData = 0 then NoDownload
      else case those (map csv_row historyData) of
             None \<Rightarrow> TypeError
           | Some rows \<Rightarrow> Download headers rows)"

section \<open>Power and temperature charts (grouping effects of the chart components)\<close>

text \<open>
  Both charts use plain objects as dictionaries keyed by location. A plain object
  inherits the properties of \<open>Object.prototype\<close>; these are their names.
\<close>

definition inherited :: "string list" where
  "inherited =
     [''constructor'', ''__defineGetter__'', ''__defineSetter__'', ''hasOwnProperty'',
      ''__lookupGetter__'', ''__lookupSetter__'', ''isPrototypeOf'', ''propertyIsEnumerable'',
      ''toString'', ''valueOf'', ''__proto__'', ''toLocaleString'']"

text \<open>
  \<open>Object.keys\<close> lists the own keys that are array indices first, in ascending numeric
  order, and then the other keys in the order they were first set. An array index is the
  decimal text, without a sign or a leading zero, of a number below \<open>2^32 - 1\<close>.
\<close>

definition is_digit :: "char \<Rightarrow> bool" where
  "is_digit c \<longleftrightarrow> c \<in> set ''0123456789''"

definition digit_value :: "char \<Rightarrow> nat" where
  "digit_value c = length (takeWhile (\<lambda>d. d \<noteq> c) ''0123456789'')"

definition array_index :: "string \<Rightarrow> nat option" where
  "array_index s =
     (let n = foldl (\<lambda>a c. 10 * a + digit_value c) 0 s
      in if s \<noteq> [] \<and> list_all is_digit s \<and> (hd s \<noteq> CHR ''0'' \<or> length s = 1) \<and> n < 4294967295
         then Some n else None)"

definition object_keys :: "string list \<Rightarrow> string list" where
  "object_keys ks =
     sort_key (\<lambda>k. case array_index k of Some n \<Rightarrow> n | None \<Rightarrow> 0)
       (filter (\<lambda>k. array_index k \<noteq> None) ks) @
     filter (\<lambda>k. array_index k = None) ks"

text \<open>
  A bucket is the object \<open>{ created: ... }\<close> that then receives one property per
  location: the instant and the readings share one name space, so a bucket is the map
  from its own property names to their values, and a location called \<open>created\<close>
  overwrites the instant.
\<close>

datatype 'k pval = Stamp 'k | Reading reading_value

type_synonym 'k bucket = "string \<rightharpoonup> 'k pval"

text \<open>
  \<open>grouped.find(...)\<close>, the \<open>push\<close> of a fresh bucket when nothing is found, and the
  assignment to the bucket found or pushed: \<open>upsert P f new gs\<close> applies \<open>f\<close> to the first
  element that satisfies \<open>P\<close>, or to \<open>new\<close> appended at the end.
\<close>

fun upsert :: "('b \<Rightarrow> bool) \<Rightarrow> ('b \<Rightarrow> 'b) \<Rightarrow> 'b \<Rightarrow> 'b list \<Rightarrow> 'b list" where
  "upsert P f new [] = [f new]"
| "upsert P f new (g # gs) = (if P g then f g # gs else g # upsert P f new gs)"

text \<open>
  The body of \<open>data.forEach\<close> in both charts (part_001, lines 392 to 398 and 562 to 571);
  \<open>key_of\<close> is the identity in the power chart and \<open>normalizeTime\<close> in the temperature
  chart. \<open>g.created === created\<close> holds for a bucket whose instant is that timestamp, and
  never for one whose \<open>created\<close> has been overwritten by a reading. The assignment
  \<open>gp[entry.location] = entry.reading\<close> sets an own property of the bucket, except
  under the name \<open>__proto__\<close>: there it runs the inherited setter, which sets no
  property (a number, a boolean and \<open>undefined\<close> are ignored, and \<open>null\<close> takes the
  bucket's prototype away, which no later step looks at).
\<close>

definition group_step :: "('t \<Rightarrow> 'k) \<Rightarrow> 'k bucket list \<Rightarrow> 't entry \<Rightarrow> 'k bucket list" where
  "group_step key_of grouped e =
     (let created = key_of (created e)
      in upsert (\<lambda>g. g ''created'' = Some (Stamp created))
           (\<lambda>gp. if location e = ''__proto__'' then gp
                 else gp(location e \<mapsto> Reading (reading e)))
           [''created'' \<mapsto> Stamp created] grouped)"

text \<open>
  The own keys of \<open>cfg\<close> in the order they are set. \<open>cfg[entry.location]\<close> is the
  label object under an own key and a function (or the prototype) under an inherited
  name, all of them truthy: \<open>!cfg[entry.location]\<close> holds, and the location is added,
  only when it is neither.
\<close>

definition cfg_step :: "string list \<Rightarrow> 't entry \<Rightarrow> string list" where
  "cfg_step cfg e =
     (if location e \<in> set cfg \<or> location e \<in> set inherited then cfg
      else cfg @ [location e])"

text \<open>The power chart's effect (lines 388 to 405): \<open>filtered\<close> and the keys of
  \<open>config\<close> as \<open>Object.keys\<close> lists them.\<close>

definition power_chart :: "string entry list \<Rightarrow> string bucket list \<times> string list" where
  "power_chart data =
     (foldl (group_step (\<lambda>c. c)) [] data, object_keys (foldl cfg_step [] data))"

text \<open>
  \<open>normalizeTime\<close> (lines 556 to 560): \<open>setSeconds(0, 0)\<close> clears the seconds and the
  milliseconds (the local zone's offset being a whole number of minutes); the ISO string
  it returns is represented by its instant.
\<close>

definition normalizeTime :: "int \<Rightarrow> int" where
  "normalizeTime t = t - t mod 60000"

text \<open>\<open>new Date(p.created).getTime()\<close> of a bucket that still holds its instant.\<close>

definition instant :: "int bucket \<Rightarrow> int" where
  "instant g = (case g ''created'' of Some (Stamp t) \<Rightarrow> t | _ \<Rightarrow> 0)"

text \<open>\<open>p[location]\<close> as a sample, for a key of \<open>cfg\<close> (which is no inherited
  name): \<open>undefined\<close> when the bucket has no such property. The instant is found only
  under \<open>created\<close>, which is no location where the temperature chart is modelled.\<close>

definition sample :: "int bucket \<Rightarrow> string \<Rightarrow> reading_value" where
  "sample p l = (case p l of Some (Reading v) \<Rightarrow> v | _ \<Rightarrow> Absent)"

text \<open>Lines 594 to 603: the averaged value of one location, set when there are values.
  The filter \<open>v !== undefined\<close> drops the missing samples only: a \<open>null\<close> stays and
  counts as 0 in the sum.\<close>

definition average_step :: "int bucket list \<Rightarrow> int bucket \<Rightarrow> string \<Rightarrow> int bucket" where
  "average_step windowPoints averagedPoint l =
     (let vals = filter (\<lambda>v. v \<noteq> Absent) (map (\<lambda>p. sample p l) windowPoints)
      in if length vals \<noteq> 0
         then averagedPoint(l \<mapsto>
                Reading (JsonNum (js_div (foldl js_add (Num 0) (map to_number vals)) (length vals))))
         else averagedPoint)"

text \<open>Lines 582 to 606: the averaged bucket of one point.\<close>

definition averaged_point :: "int bucket list \<Rightarrow> string list \<Rightarrow> int bucket \<Rightarrow> int bucket" where
  "averaged_point grouped cfg point =
     (let windowStart = instant point - 30 * 60 * 1000;
          windowPoints = filter (\<lambda>p. instant p \<ge> windowStart \<and> instant p \<le> instant point) grouped
      in foldl (average_step windowPoints) [''created'' \<mapsto> Stamp (instant point)] cfg)"

text \<open>
  The temperature chart's effect (lines 552 to 610). The sort is stable and orders the
  buckets by instant. When a reading's location is the string \<open>created\<close>, a bucket's
  instant is replaced by that reading; what \<open>new Date\<close> makes of a number and what the
  sums make of a timestamp string are outside the embedding, which gives \<open>None\<close> there.
\<close>

definition temperature_chart :: "int entry list \<Rightarrow> (int bucket list \<times> string list) option" where
  "temperature_chart data =
     (let grouped = foldl (group_step normalizeTime) [] data;
          cfg = object_keys (foldl cfg_step [] data)
      in if ''created'' \<in> set cfg then None
         else let sorted = sort_key instant grouped
              in Some (map (averaged_point sorted cfg) sorted, cfg))"

section \<open>Notions used to state the properties\<close>

text \<open>The day number of the first day of the month with index \<open>k\<close>, where the index
  counts months as \<open>12 * year + month\<close>.\<close>

definition first_day :: "int \<Rightarrow> int" where
  "first_day k = make_day (k div 12) (k mod 12) 1"

text \<open>The month index of a year and month pair.\<close>

definition month_index :: "int \<times> int \<Rightarrow> int" where
  "month_index t = 12 * fst t + snd t"

text \<open>The arithmetic mean of a list of numbers.\<close>

definition mean :: "rat list \<Rightarrow> rat" where
  "mean xs = sum_list xs / of_nat (length xs)"

text \<open>A group of readings all of whose values are finite numbers, and the number a
  reading holds.\<close>

definition numeric :: "'t entry list \<Rightarrow> bool" where
  "numeric g \<longleftrightarrow> list_all (\<lambda>e. case reading e of JsonNum (Num x) \<Rightarrow> True | _ \<Rightarrow> False) g"

definition value_of :: "'t entry \<Rightarrow> rat" where
  "value_of e = (case reading e of JsonNum (Num x) \<Rightarrow> x | _ \<Rightarrow> 0)"



text \<open>The mean of the readings of one location within a group.\<close>

definition location_mean :: "'t entry list \<Rightarrow> string \<Rightarrow> rat" where
  "location_mean g l = mean (map value_of (filter (\<lambda>e. location e = l) g))"

text \<open>The accumulator that \<open>calculateSensorAverages\<close> ends with for one location:
  the sum, the count and the readings of all the entries of that location.\<close>

definition acc_of :: "int entry list \<Rightarrow> string \<Rightarrow> acc" where
  "acc_of data l =
     (let es = filter (\<lambda>e. location e = l) data
      in \<lparr>sum = foldl js_add (Num 0) (map (\<lambda>e. to_number (reading e)) es),
          count = length es, readings = map reading es\<rparr>)"

text \<open>A value of a capacity row that is a finite number, or absent (\<open>undefined\<close> or
  \<open>null\<close>).\<close>

fun plain :: "jsval \<Rightarrow> bool" where
  "plain Undefined = True"
| "plain Null = True"
| "plain (Number (Num x)) = True"
| "plain _ = False"

text \<open>A text with exactly two decimal places: an optional minus sign, at least one
  digit, a point and two digits.\<close>

definition two_decimals :: "string \<Rightarrow> bool" where
  "two_decimals s =
     (let body = (if s \<noteq> [] \<and> hd s = CHR ''-'' then tl s else s); n = length body
      in 4 \<le> n \<and> body ! (n - 3) = CHR ''.'' \<and> list_all is_digit (take (n - 3) body) \<and>
         list_all is_digit (drop (n - 2) body))"

text \<open>The number that a text with two decimal places denotes: its digits read as a
  number of hundredths.\<close>

definition number_of_text :: "string \<Rightarrow> rat" where
  "number_of_text s =
     (let n = foldl (\<lambda>a c. 10 * a + digit_value c) 0 (filter is_digit s)
      in (if s \<noteq> [] \<and> hd s = CHR ''-'' then - 1 else 1) * of_nat n / 100)"

text \<open>The cells of a row all of whose zone values are numbers or absent: the month,
  the twenty zone values and the four totals through \<open>toFixed(2)\<close>, the flag and
  the date.\<close>

definition expected_cells :: "capacity_row \<Rightarrow> cell list" where
  "expected_cells row =
     Text (row_month row) #
     map (\<lambda>key. toFixed2 (Num (number_or_zero (props row key)))) zone_columns @
     [toFixed2 (Num (sumForRow row Planned)), toFixed2 (Num (sumForRow row Live)),
      toFixed2 (Num (sumForRow row Maximum)), toFixed2 (Num (sumForRow row Available)),
      Text (if auto_saved row = Some True then ''Yes'' else ''No''),
      Text (case saved_date row of None \<Rightarrow> '''' | Some d \<Rightarrow> d)]"

text \<open>A row whose planned loads are 0.004 kW in each of the five zones, auto-saved,
  without a saved date.\<close>

definition small_loads_row :: capacity_row where
  "small_loads_row =
     \<lparr>row_month = ''2024-03'',
      props = (\<lambda>k. Undefined)
        (''dh1_planned'' := Number (Num (1 / 250)), ''dh2_planned'' := Number (Num (1 / 250)),
         ''dh3_planned'' := Number (Num (1 / 250)), ''dh4_planned'' := Number (Num (1 / 250)),
         ''dh5_planned'' := Number (Num (1 / 250))),
      auto_saved = Some True, saved_date = None\<rparr>"

text \<open>
  The reading last reported for key \<open>k\<close> (a timestamp, or a minute) and location \<open>l\<close>:
  \<open>None\<close> when no entry has that key and location, otherwise the reading of the last
  such entry.
\<close>

definition reported :: "('t \<Rightarrow> 'k) \<Rightarrow> 't entry list \<Rightarrow> 'k \<Rightarrow> string \<Rightarrow> reading_value option" where
  "reported key_of data k l =
     (case filter (\<lambda>e. key_of (created e) = k \<and> location e = l) data of
        [] \<Rightarrow> None
      | es \<Rightarrow> Some (reading (last es)))"

text \<open>The bucket of key \<open>k\<close> as it should be: the key under \<open>created\<close>, and under each
  location that reported at \<open>k\<close> its last reading.\<close>

definition bucket_of :: "('t \<Rightarrow> 'k) \<Rightarrow> 't entry list \<Rightarrow> 'k \<Rightarrow> 'k bucket" where
  "bucket_of key_of data k =
     (\<lambda>l. if l = ''created'' then Some (Stamp k)
          else map_option Reading (reported key_of data k l))"

text \<open>The keys of the entries in the order they are first met.\<close>

definition keys_of :: "('t \<Rightarrow> 'k) \<Rightarrow> 't entry list \<Rightarrow> 'k list" where
  "keys_of key_of data = unique (map (\<lambda>e. key_of (created e)) data)"






section \<open>The calendar: month starts grow with the month index\<close>

lemma div_step: "0 < n \<Longrightarrow> ((x::int) + 1) div n = x div n + (if (x + 1) mod n = 0 then 1 else 0)"
proof -
  assume n: "0 < n"
  have e: "x = n * (x div n) + x mod n" by simp
  have b: "0 \<le> x mod n" "x mod n < n" using n by auto
  show ?thesis
  proof (cases "x mod n = n - 1")
    case True
    then have "x + 1 = n * (x div n + 1)" using e by (metis add.assoc diff_add_cancel distrib_left mult.right_neutral)
    then have "(x + 1) div n = x div n + 1" "(x+1) mod n = 0" using n by (metis nonzero_mult_div_cancel_left less_irrefl, metis mod_mult_self1_is_0)
    then show ?thesis by simp
  next
    case False
    then have lt: "x mod n + 1 < n" using b by linarith
    have "x + 1 = n * (x div n) + (x mod n + 1)" using e by linarith
    moreover have "0 \<le> x mod n + 1" using b by linarith
    ultimately have "(x + 1) div n = x div n" "(x + 1) mod n = x mod n + 1"
      using lt  by (metis div_pos_pos_trivial div_mult_self2 add.commute add.right_neutral less_irrefl n mult.commute, metis mod_pos_pos_trivial mod_mult_self2 add.commute)
    then show ?thesis using b by auto
  qed
qed

lemma mod_shift: "((y::int) - c * n) mod n = y mod n"
  using mod_mult_self1[of y "- c" n] by simp

lemma day_from_year_step:
  "day_from_year (y + 1) = day_from_year y + (if is_leap y then 366 else 365)"
proof -
  have m4: "(y - 1969 + 1) mod 4 = y mod 4"
    using mod_shift[of y 492 4] by simp
  have m100: "(y - 1901 + 1) mod 100 = y mod 100"
    using mod_shift[of y 19 100] by simp
  have m400: "(y - 1601 + 1) mod 400 = y mod 400"
    using mod_shift[of y 4 400] by simp
  have a0: "(y - 1969 + 1) div 4 = (y - 1969) div 4 + (if (y - 1969 + 1) mod 4 = 0 then 1 else 0)"
    by (rule div_step) simp
  have b0: "(y - 1901 + 1) div 100 = (y - 1901) div 100 + (if (y - 1901 + 1) mod 100 = 0 then 1 else 0)"
    by (rule div_step) simp
  have c0: "(y - 1601 + 1) div 400 = (y - 1601) div 400 + (if (y - 1601 + 1) mod 400 = 0 then 1 else 0)"
    by (rule div_step) simp
  have s: "y + 1 - 1969 = y - 1969 + 1" "y + 1 - 1901 = y - 1901 + 1" "y + 1 - 1601 = y - 1601 + 1"
    "y + 1 - 1970 = y - 1970 + 1"
    by simp_all
  have d: "y mod 4 = 0" if "y mod 100 = 0"
    using mod_mod_cancel[of 4 100 y] that by simp
  have e: "y mod 100 = 0" if "y mod 400 = 0"
    using mod_mod_cancel[of 100 400 y] that by simp
  have "day_from_year (y + 1) = 365 * (y - 1970) + 365 + ((y - 1969) div 4 + (if y mod 4 = 0 then 1 else 0))
      - ((y - 1901) div 100 + (if y mod 100 = 0 then 1 else 0))
      + ((y - 1601) div 400 + (if y mod 400 = 0 then 1 else 0))"
    unfolding day_from_year_def s a0 b0 c0 m4 m100 m400 by (simp only: distrib_left mult_1_right)
  also have "\<dots> = day_from_year y + (if is_leap y then 366 else 365)"
    unfolding day_from_year_def is_leap_def using d e by (cases "y mod 4 = 0"; cases "y mod 100 = 0"; cases "y mod 400 = 0"; simp)
  finally show ?thesis .
qed

lemma divmod12: "0 \<le> s \<Longrightarrow> s < 12 \<Longrightarrow> (12 * y + s) div 12 = (y::int) \<and> (12 * y + s) mod 12 = s"
  by simp

lemma days_before_month_step:
  assumes "0 \<le> r" "r < 11"
  shows "days_before_month y r < days_before_month y (r + 1)"
proof -
  have "r = 0 \<or> r = 1 \<or> r = 2 \<or> r = 3 \<or> r = 4 \<or> r = 5 \<or> 6 \<le> r"
    using assms by linarith
  moreover have "r = 6 \<or> r = 7 \<or> r = 8 \<or> r = 9 \<or> r = 10" if "6 \<le> r"
    using assms that by linarith
  ultimately have "r = 0 \<or> r = 1 \<or> r = 2 \<or> r = 3 \<or> r = 4 \<or> r = 5 \<or> r = 6 \<or> r = 7
      \<or> r = 8 \<or> r = 9 \<or> r = 10" by blast
  then show ?thesis
    by (elim disjE) (simp_all add: days_before_month_def)
qed

lemma days_before_month_11: "days_before_month y 11 < (if is_leap y then 366 else 365)"
  by (simp add: days_before_month_def)

lemma first_day_step: "first_day k < first_day (k + 1)"
proof -
  define y where "y = k div 12"
  define r where "r = k mod 12"
  have k: "k = 12 * y + r" and r: "0 \<le> r" "r < 12" by (auto simp: y_def r_def)
  have fk: "first_day k = day_from_year y + days_before_month y r"
    by (simp add: first_day_def make_day_def y_def r_def Let_def)
  show ?thesis
  proof (cases "r = 11")
    case True
    then have e1: "k + 1 = 12 * (y + 1) + 0" using k by simp
    have "(k + 1) div 12 = y + 1" "(k+1) mod 12 = 0"
      unfolding e1 using divmod12[of 0 "y + 1"] by simp_all
    then have "first_day (k + 1) = day_from_year (y + 1)"
      by (simp add: first_day_def make_day_def days_before_month_def Let_def)
    then show ?thesis using fk True days_before_month_11[of y]
      by (simp add: day_from_year_step split: if_splits)
  next
    case False
    then have e1: "k + 1 = 12 * y + (r + 1)" and b: "0 \<le> r + 1" "r + 1 < 12" using k r by auto
    have "(k + 1) div 12 = y" "(k+1) mod 12 = r + 1"
      unfolding e1 using divmod12[OF b, of y] by blast+
    then have "first_day (k + 1) = day_from_year y + days_before_month y (r + 1)"
      by (simp add: first_day_def make_day_def Let_def)
    then show ?thesis using fk days_before_month_step[of r y] r False by simp
  qed
qed

lemma first_day_mono: "i < j \<Longrightarrow> first_day i < first_day j"
proof -
  have "first_day i < first_day (i + 1 + int n)" for n
  proof (induction n)
    case 0 show ?case using first_day_step[of i] by simp
  next
    case (Suc n)
    have "first_day (i + 1 + int n) < first_day (i + 1 + int (Suc n))"
      using first_day_step[of "i + 1 + int n"] by (simp add: add.assoc)
    with Suc show ?case by linarith
  qed
  moreover assume "i < j"
  then have "j = i + 1 + int (nat (j - i - 1))" by simp
  ultimately show ?thesis by metis
qed

lemma first_day_make_day: "make_day f s 1 = first_day (12 * f + s)"
proof -
  have a: "(12 * f + s) div 12 = f + s div 12" by simp
  have b: "(12 * f + s) mod 12 = s mod 12" by simp
  show ?thesis unfolding first_day_def a b by (simp add: make_day_def Let_def)
qed

lemma make_day_date: "make_day f s d = make_day f s 1 + d - 1"
  by (simp add: make_day_def Let_def)

lemma monthStart_first_day: "monthStart tz t = first_day (month_index t) * ms_per_day - tz"
  by (simp add: monthStart_def local_date_def first_day_make_day month_index_def)

lemma monthEnd_first_day: "monthEnd tz t = first_day (month_index t + 1) * ms_per_day - 1000 - tz"
proof -
  have "make_day (fst t) (snd t + 1) 0 = first_day (month_index t + 1) - 1"
    using make_day_date[of "fst t" "snd t + 1" 0] first_day_make_day[of "fst t" "snd t + 1"]
    by (simp add: month_index_def add.assoc)
  then show ?thesis
    by (simp add: monthEnd_def local_date_def ms_per_day_def algebra_simps)
qed

lemma month_index_target: "month_index (target_month year mon i) = 12 * year + mon - int i"
proof -
  have "12 * ((mon - int i) div 12) + (mon - int i) mod 12 = mon - int i" by simp
  then show ?thesis by (simp add: month_index_def target_month_def algebra_simps)
qed

lemma first_day_mono_le: "i \<le> j \<Longrightarrow> first_day i \<le> first_day j"
  using first_day_mono[of i j] by (cases "i = j") auto

lemma window_before:
  assumes "month_index s < month_index t"
  shows "monthEnd tz s < monthStart tz t"
proof -
  have "first_day (month_index s + 1) \<le> first_day (month_index t)"
    using assms by (intro first_day_mono_le) simp
  then have "first_day (month_index s + 1) * ms_per_day \<le> first_day (month_index t) * ms_per_day"
    by (simp add: ms_per_day_def)
  then show ?thesis by (simp add: monthStart_first_day monthEnd_first_day)
qed

lemma windows_apart:
  assumes "i \<noteq> j"
  shows "\<not> (monthStart tz (target_month y m i) \<le> x \<and> x \<le> monthEnd tz (target_month y m i) \<and>
            monthStart tz (target_month y m j) \<le> x \<and> x \<le> monthEnd tz (target_month y m j))"
proof (cases "i < j")
  case True
  then have "month_index (target_month y m j) < month_index (target_month y m i)"
    by (simp add: month_index_target)
  from window_before[OF this, of tz] show ?thesis by linarith
next
  case False
  with assms have "j < i" by simp
  then have "month_index (target_month y m i) < month_index (target_month y m j)"
    by (simp add: month_index_target)
  from window_before[OF this, of tz] show ?thesis by linarith
qed

lemma exn_unique: "(err :: exn) = RangeError"
  by (cases err) simp

lemma peak_throws: "arglim < length rs \<Longrightarrow> peak arglim rs = Inl RangeError"
  by (cases rs) (simp_all add: peak_def)

lemma bottom_throws: "arglim < length rs \<Longrightarrow> bottom arglim rs = Inl RangeError"
  by (cases rs) (simp_all add: bottom_def)

lemma peak_fits:
  "length rs \<le> arglim \<Longrightarrow> peak arglim rs = Inr (case rs of [] \<Rightarrow> Num 0 | x # xs \<Rightarrow> math_max x xs)"
  by (cases rs) (simp_all add: peak_def)

lemma bottom_fits:
  "length rs \<le> arglim \<Longrightarrow> bottom arglim rs = Inr (case rs of [] \<Rightarrow> Num 0 | x # xs \<Rightarrow> math_min x xs)"
  by (cases rs) (simp_all add: bottom_def)

lemma peak_Inr:
  "peak arglim rs = Inr v \<Longrightarrow> v = (case rs of [] \<Rightarrow> Num 0 | x # xs \<Rightarrow> math_max x xs)"
  by (cases rs) (simp_all add: peak_def split: if_splits)

lemma bottom_Inr:
  "bottom arglim rs = Inr v \<Longrightarrow> v = (case rs of [] \<Rightarrow> Num 0 | x # xs \<Rightarrow> math_min x xs)"
  by (cases rs) (simp_all add: bottom_def split: if_splits)

text \<open>The fields of a month's record, when the month gives one.\<close>

lemma month_stat_fields:
  assumes "month_stat arglim tz t d = Inr s"
  shows "month s = t"
    and "hotData s = fst (separate (month_filter tz t d))"
    and "coldData s = snd (separate (month_filter tz t d))"
    and "hotSensors s = unique (map location (hotData s))"
    and "coldSensors s = unique (map location (coldData s))"
    and "overallHotAvg s = overall_avg (snd (calculateSensorAverages (hotData s)))"
    and "overallColdAvg s = overall_avg (snd (calculateSensorAverages (coldData s)))"
    and "peak arglim (map reading (hotData s)) = Inr (hotPeak s)"
    and "bottom arglim (map reading (hotData s)) = Inr (hotBottom s)"
    and "peak arglim (map reading (coldData s)) = Inr (coldPeak s)"
    and "bottom arglim (map reading (coldData s)) = Inr (coldBottom s)"
    and "hotMedian s = map_option calculateMedian (finite_values (map reading (hotData s)))"
    and "coldMedian s = map_option calculateMedian (finite_values (map reading (coldData s)))"
    and "totalReadings s = length (month_filter tz t d)"
  using assms by (auto simp: month_stat_def Let_def split: sum.splits)

text \<open>A month gives a record when its hot and its cold group fit the argument limit, and
  throws when one of them does not.\<close>

lemma month_stat_fits:
  assumes "length (fst (separate (month_filter tz t d))) \<le> arglim"
    and "length (snd (separate (month_filter tz t d))) \<le> arglim"
  shows "\<exists>s. month_stat arglim tz t d = Inr s"
  using assms by (simp add: month_stat_def Let_def peak_fits bottom_fits)

lemma month_stat_throws:
  assumes "arglim < length (fst (separate (month_filter tz t d))) \<or>
           arglim < length (snd (separate (month_filter tz t d)))"
  shows "month_stat arglim tz t d = Inl RangeError"
proof (cases "arglim < length (fst (separate (month_filter tz t d)))")
  case True
  then show ?thesis by (simp add: month_stat_def Let_def peak_throws)
next
  case False
  with assms have c: "arglim < length (snd (separate (month_filter tz t d)))" by simp
  show ?thesis
    using c exn_unique
    by (auto simp: month_stat_def Let_def peak_throws split: sum.splits)
qed

lemma month_loop_spec:
  "month_loop arglim tz y m d offsets acc =
     (if \<forall>i \<in> set offsets. \<exists>s. month_stat arglim tz (target_month y m i) d = Inr s
      then Inr (acc @ map (\<lambda>i. projr (month_stat arglim tz (target_month y m i) d)) offsets)
      else Inl RangeError)"
proof (induction offsets arbitrary: acc)
  case Nil
  show ?case by simp
next
  case (Cons i offsets)
  show ?case
  proof (cases "month_stat arglim tz (target_month y m i) d")
    case (Inl err)
    then show ?thesis using exn_unique[of err] by simp
  next
    case (Inr s)
    then show ?thesis by (simp add: Cons.IH)
  qed
qed

lemma run_spec:
  "runDH3TempComparison arglim tz y m N d =
     (if \<forall>i < nat N. \<exists>s. month_stat arglim tz (target_month y m i) d = Inr s
      then Inr (rev (map (\<lambda>i. projr (month_stat arglim tz (target_month y m i) d)) [0..<nat N]))
      else Inl RangeError)"
  by (simp add: runDH3TempComparison_def month_loop_spec)

lemma run_Inr:
  assumes "runDH3TempComparison arglim tz y m N d = Inr r"
  shows "length r = nat N"
    and "k < nat N \<Longrightarrow> month_stat arglim tz (target_month y m (nat N - 1 - k)) d = Inr (r ! k)"
proof -
  let ?f = "\<lambda>i. projr (month_stat arglim tz (target_month y m i) d)"
  have all: "\<forall>i < nat N. \<exists>s. month_stat arglim tz (target_month y m i) d = Inr s"
    using assms by (simp add: run_spec split: if_splits)
  then have r: "r = rev (map ?f [0..<nat N])"
    using assms by (simp add: run_spec)
  show "length r = nat N" by (simp add: r)
  show "month_stat arglim tz (target_month y m (nat N - 1 - k)) d = Inr (r ! k)" if "k < nat N"
  proof -
    have "r ! k = ?f (nat N - 1 - k)" using that by (simp add: r rev_nth)
    moreover have "nat N - 1 - k < nat N" using that by simp
    with all obtain s where "month_stat arglim tz (target_month y m (nat N - 1 - k)) d = Inr s"
      by blast
    ultimately show ?thesis by simp
  qed
qed

lemma run_fits:
  assumes "\<And>i. i < nat N \<Longrightarrow>
      length (fst (separate (month_filter tz (target_month y m i) d))) \<le> arglim \<and>
      length (snd (separate (month_filter tz (target_month y m i) d))) \<le> arglim"
  shows "\<exists>r. runDH3TempComparison arglim tz y m N d = Inr r"
  using assms by (simp add: run_spec month_stat_fits)

lemma run_throws:
  assumes "i < nat N"
    and "arglim < length (fst (separate (month_filter tz (target_month y m i) d))) \<or>
         arglim < length (snd (separate (month_filter tz (target_month y m i) d)))"
  shows "runDH3TempComparison arglim tz y m N d = Inl RangeError"
proof -
  from month_stat_throws[OF assms(2)] have "\<not> (\<exists>s. month_stat arglim tz (target_month y m i) d = Inr s)"
    by simp
  with assms(1) show ?thesis by (auto simp: run_spec)
qed

section \<open>Properties of the monthly comparison\<close>

lemma endsWith_last: "endsWith s t \<Longrightarrow> t \<noteq> [] \<Longrightarrow> last s = last t"
proof -
  assume a: "endsWith s t" and b: "t \<noteq> []"
  then have l: "length t \<le> length s" and d: "drop (length s - length t) s = t"
    by (auto simp: endsWith_def)
  from b l have "length s - length t < length s" by (cases t) auto
  then have "last (drop (length s - length t) s) = last s" by (rule last_drop)
  with d show ?thesis by simp
qed

lemma endsWith_up_down: "endsWith s ''-up'' \<Longrightarrow> \<not> endsWith s ''-down''"
proof
  assume a: "endsWith s ''-up''" and b: "endsWith s ''-down''"
  from endsWith_last[OF a] endsWith_last[OF b] show False by simp
qed

lemma separate_foldl:
  "foldl separate_step (h, c) md =
     (h @ filter (\<lambda>e. endsWith (location e) ''-up'') md,
      c @ filter (\<lambda>e. endsWith (location e) ''-down'') md)"
  by (induction md arbitrary: h c) (auto simp: separate_step_def dest: endsWith_up_down)

lemma separate_filter:
  "separate md = (filter (\<lambda>e. endsWith (location e) ''-up'') md,
                  filter (\<lambda>e. endsWith (location e) ''-down'') md)"
  by (simp add: separate_def separate_foldl)

lemma hotData_stat:
  "month_stat arglim tz t d = Inr s \<Longrightarrow>
   hotData s = filter (\<lambda>e. endsWith (location e) ''-up'') (month_filter tz t d)"
  by (simp add: month_stat_fields separate_filter)

lemma coldData_stat:
  "month_stat arglim tz t d = Inr s \<Longrightarrow>
   coldData s = filter (\<lambda>e. endsWith (location e) ''-down'') (month_filter tz t d)"
  by (simp add: month_stat_fields separate_filter)

lemma set_unique: "set (unique xs) = set xs"
  by (simp add: unique_def)

lemma march_2024: "monthStart tz (2024, 2) = 1709251200000 - tz" "monthEnd tz (2024, 2) = 1711929599000 - tz"
  by (simp_all add: monthStart_def monthEnd_def local_date_def make_day_def
        day_from_year_def days_before_month_def is_leap_def ms_per_day_def)

text \<open>
  Claim C6. \<open>calculateMedian\<close> returns 0 for the empty list; for a list with values it
  returns the middle of the values in ascending order: for every ascending arrangement
  \<open>s\<close> of the values, the element in the middle when their number is odd, and the mean
  of the two middle elements when it is even. The median of 10, 20, 30 is 20 and the
  median of 10, 20, 30, 40 is 25.
\<close>

theorem calculateMedian_middle_of_sorted:
  "calculateMedian [] = 0 \<and> calculateMedian [10, 20, 30] = 20 \<and>
   calculateMedian [10, 20, 30, 40] = 25 \<and>
   (\<forall>s. sorted s \<and> mset s = mset values \<and> values \<noteq> [] \<longrightarrow>
      calculateMedian values =
        (if even (length s) then (s ! (length s div 2 - 1) + s ! (length s div 2)) / 2
         else s ! (length s div 2)))"
proof -
  have gen: "calculateMedian values =
        (if even (length s) then (s ! (length s div 2 - 1) + s ! (length s div 2)) / 2
         else s ! (length s div 2))"
    if "sorted s" "mset s = mset values" "values \<noteq> []" for s
  proof -
    have "s = sort values" using that(1,2) by (metis properties_for_sort)
    moreover have "length s = length values" using that(2) by (metis size_mset)
    ultimately show ?thesis using that(3) by (auto simp: calculateMedian_def Let_def)
  qed
  have "calculateMedian [] = 0" by (simp add: calculateMedian_def)
  moreover have "calculateMedian [10, 20, 30] = 20" by (simp add: calculateMedian_def)
  moreover have "calculateMedian [10, 20, 30, 40] = 25" by (simp add: calculateMedian_def)
  ultimately show ?thesis using gen by blast
qed

text \<open>The values 30, 10, 20 have the ascending arrangement 10, 20, 30 and the median 20.\<close>

theorem calculateMedian_middle_of_sorted_witness:
  "sorted [10, 20, 30 :: rat] \<and> mset [10, 20, 30 :: rat] = mset [30, 10, 20] \<and>
   calculateMedian [30, 10, 20] = 20"
proof -
  have h: "sorted [10, 20, 30 :: rat] \<and> mset [10, 20, 30 :: rat] = mset [30, 10, 20] \<and> [30, 10, 20 :: rat] \<noteq> []"
    by simp
  with calculateMedian_middle_of_sorted[of "[30, 10, 20]"]
  have "calculateMedian [30, 10, 20] =
        (if even (length [10, 20, 30 :: rat]) then ([10, 20, 30] ! (length [10, 20, 30 :: rat] div 2 - 1) + [10, 20, 30] ! (length [10, 20, 30 :: rat] div 2)) / 2
         else [10, 20, 30] ! (length [10, 20, 30 :: rat] div 2))"
    by blast
  then show ?thesis using h by simp
qed

text \<open>
  Claim C7. Of a month's readings the hot group is exactly those whose location ends in
  \<open>-up\<close> and the cold group exactly those whose location ends in \<open>-down\<close>, each
  in the order of the input; a reading with neither suffix is in neither group. The
  record of a month holds these two groups: a reading of the month at \<open>rack1-up\<close> is
  among its hot data and not among its cold data, and \<open>rack1-up\<close> is a hot sensor and
  not a cold one.
\<close>

theorem separate_hot_cold_by_suffix:
  "fst (separate md) = filter (\<lambda>e. endsWith (location e) ''-up'') md \<and>
   snd (separate md) = filter (\<lambda>e. endsWith (location e) ''-down'') md \<and>
   (\<forall>e. \<not> endsWith (location e) ''-up'' \<and> \<not> endsWith (location e) ''-down'' \<longrightarrow>
        e \<notin> set (fst (separate md)) \<and> e \<notin> set (snd (separate md))) \<and>
   (\<forall>e \<in> set md. location e = ''rack1-up'' \<longrightarrow>
        e \<in> set (fst (separate md)) \<and> e \<notin> set (snd (separate md))) \<and>
   (month_stat arglim tz t d = Inr s \<longrightarrow>
      hotData s = fst (separate (month_filter tz t d)) \<and>
      coldData s = snd (separate (month_filter tz t d)) \<and>
      (\<forall>e \<in> set (month_filter tz t d). location e = ''rack1-up'' \<longrightarrow>
         e \<in> set (hotData s) \<and> e \<notin> set (coldData s) \<and>
         ''rack1-up'' \<in> set (hotSensors s) \<and> ''rack1-up'' \<notin> set (coldSensors s)))"
proof -
  have up: "endsWith ''rack1-up'' ''-up''" by (simp add: endsWith_def)
  then have down: "\<not> endsWith ''rack1-up'' ''-down''" by (rule endsWith_up_down)
  have rec: "hotData s = fst (separate (month_filter tz t d)) \<and>
      coldData s = snd (separate (month_filter tz t d)) \<and>
      (\<forall>e \<in> set (month_filter tz t d). location e = ''rack1-up'' \<longrightarrow>
         e \<in> set (hotData s) \<and> e \<notin> set (coldData s) \<and>
         ''rack1-up'' \<in> set (hotSensors s) \<and> ''rack1-up'' \<notin> set (coldSensors s))"
    if s: "month_stat arglim tz t d = Inr s"
  proof -
    note f = month_stat_fields[OF s]
    have cs: "''rack1-up'' \<notin> set (coldSensors s)"
      using down by (auto simp: f(5) set_unique coldData_stat[OF s])
    have hs: "''rack1-up'' \<in> set (hotSensors s)"
      if "e \<in> set (month_filter tz t d)" "location e = ''rack1-up''" for e
    proof -
      from that up have "e \<in> set (hotData s)" by (simp add: hotData_stat[OF s])
      then have "location e \<in> location ` set (hotData s)" by (rule imageI)
      with that show ?thesis by (simp add: f(4) set_unique)
    qed
    have A: "\<forall>e \<in> set (month_filter tz t d). location e = ''rack1-up'' \<longrightarrow>
         e \<in> set (hotData s) \<and> e \<notin> set (coldData s) \<and>
         ''rack1-up'' \<in> set (hotSensors s) \<and> ''rack1-up'' \<notin> set (coldSensors s)"
      using up down cs hs by (auto simp: hotData_stat[OF s] coldData_stat[OF s])
    from f(2) f(3) A show ?thesis by blast
  qed
  show ?thesis
    using up down rec by (auto simp: separate_filter)
qed

text \<open>A reading at \<open>rack1-up\<close> and one at \<open>rack1-side\<close>, both on 1 March 2024 in a
  UTC zone: the first is hot and not cold, the second is in neither group.\<close>

theorem separate_hot_cold_by_suffix_witness:
  "month_stat 65536 0 (2024, 2)
      [\<lparr>created = 1709251200000, location = ''rack1-up'', reading = JsonNum (Num 30)\<rparr>,
       \<lparr>created = 1709251200000, location = ''rack1-side'', reading = JsonNum (Num 31)\<rparr>] =
     Inr \<lparr>month = (2024, 2),
          hotData = [\<lparr>created = 1709251200000, location = ''rack1-up'', reading = JsonNum (Num 30)\<rparr>],
          coldData = [], hotSensors = [''rack1-up''], coldSensors = [],
          overallHotAvg = Num 30, overallColdAvg = Num 0,
          hotPeak = Num 30, hotBottom = Num 30, coldPeak = Num 0, coldBottom = Num 0,
          hotMedian = Some 30, coldMedian = Some 0, totalReadings = 2\<rparr> \<and>
   \<lparr>created = 1709251200000, location = ''rack1-up'', reading = JsonNum (Num 30)\<rparr>
     \<in> set (month_filter 0 (2024, 2)
         [\<lparr>created = 1709251200000, location = ''rack1-up'', reading = JsonNum (Num 30)\<rparr>,
          \<lparr>created = 1709251200000, location = ''rack1-side'', reading = JsonNum (Num 31)\<rparr>]) \<and>
   \<lparr>created = 1709251200000, location = ''rack1-up'', reading = JsonNum (Num 30)\<rparr>
     \<in> set (fst (separate
         [\<lparr>created = 1709251200000, location = ''rack1-up'', reading = JsonNum (Num 30)\<rparr>,
          \<lparr>created = 1709251200000, location = ''rack1-side'', reading = JsonNum (Num 31)\<rparr>])) \<and>
   \<lparr>created = 1709251200000, location = ''rack1-side'', reading = JsonNum (Num 31)\<rparr>
     \<notin> set (fst (separate
         [\<lparr>created = 1709251200000, location = ''rack1-up'', reading = JsonNum (Num 30)\<rparr>,
          \<lparr>created = 1709251200000, location = ''rack1-side'', reading = JsonNum (Num 31)\<rparr>])) \<and>
   \<lparr>created = 1709251200000, location = ''rack1-side'', reading = JsonNum (Num 31)\<rparr>
     \<notin> set (snd (separate
         [\<lparr>created = 1709251200000, location = ''rack1-up'', reading = JsonNum (Num 30)\<rparr>,
          \<lparr>created = 1709251200000, location = ''rack1-side'', reading = JsonNum (Num 31)\<rparr>])) \<and>
   ''rack1-up'' \<in> set (hotSensors
     \<lparr>month = (2024, 2),
      hotData = [\<lparr>created = 1709251200000, location = ''rack1-up'', reading = JsonNum (Num 30)\<rparr>],
      coldData = [], hotSensors = [''rack1-up''], coldSensors = [],
      overallHotAvg = Num 30, overallColdAvg = Num 0,
      hotPeak = Num 30, hotBottom = Num 30, coldPeak = Num 0, coldBottom = Num 0,
      hotMedian = Some 30, coldMedian = Some 0, totalReadings = 2\<rparr>)"
proof -
  let ?a = "\<lparr>created = 1709251200000 :: int, location = ''rack1-up'', reading = JsonNum (Num 30)\<rparr>"
  let ?b = "\<lparr>created = 1709251200000 :: int, location = ''rack1-side'', reading = JsonNum (Num 31)\<rparr>"
  let ?s = "\<lparr>month = (2024, 2), hotData = [?a],
      coldData = [], hotSensors = [''rack1-up''], coldSensors = [],
      overallHotAvg = Num 30, overallColdAvg = Num 0,
      hotPeak = Num 30, hotBottom = Num 30, coldPeak = Num 0, coldBottom = Num 0,
      hotMedian = Some 30, coldMedian = Some 0, totalReadings = 2\<rparr>"
  have sfx: "endsWith ''rack1-up'' ''-up''" "\<not> endsWith ''rack1-side'' ''-up''"
    "\<not> endsWith ''rack1-side'' ''-down''" "\<not> endsWith ''rack1-up'' ''-down''"
    by (simp_all add: endsWith_def)
  have m: "month_filter 0 (2024, 2) [?a, ?b] = [?a, ?b]"
    by (simp add: month_filter_def march_2024)
  have st: "month_stat 65536 0 (2024, 2) [?a, ?b] = Inr ?s"
    by (simp add: month_stat_def m separate_def separate_step_def sfx Let_def
        calculateSensorAverages_def grouped_step_def overall_avg_def peak_def bottom_def
        math_max_def math_min_def unique_def calculateMedian_def)
  have side: "\<not> endsWith (location ?b) ''-up'' \<and> \<not> endsWith (location ?b) ''-down''"
    by (simp add: sfx)
  from m have a: "?a \<in> set (month_filter 0 (2024, 2) [?a, ?b])" by simp
  note t = separate_hot_cold_by_suffix[of "[?a, ?b]" 65536 0 "(2024, 2)" "[?a, ?b]" ?s]
  from t st a have 1: "''rack1-up'' \<in> set (hotSensors ?s)"
    by (metis entry.select_convs(2))
  from t have 2: "?a \<in> set (fst (separate [?a, ?b]))"
    by (metis entry.select_convs(2) list.set_intros(1))
  from t side have 3: "?b \<notin> set (fst (separate [?a, ?b])) \<and> ?b \<notin> set (snd (separate [?a, ?b]))"
    by blast
  from st a 1 2 3 show ?thesis by blast
qed

lemma target_month_0: "0 \<le> m \<Longrightarrow> m < 12 \<Longrightarrow> target_month y m 0 = (y, m)"
  by (simp add: target_month_def)

text \<open>
  When the analysis gives records, and the month count \<open>N\<close> is at least 1 (with the
  current month index \<open>m\<close> between 0 and 11, as \<open>getMonth\<close> returns it), there are
  exactly \<open>N\<close> of them; the record at position \<open>k\<close> is the one of the calendar month
  \<open>N - 1 - k\<close> months before the current one, so the months are consecutive, the last
  record is the current month, and each record's month ends before the next record's
  month starts. It gives records when the hot and the cold group of every month asked for
  fit the argument limit.
\<close>

lemma run_records_oldest_first:
  assumes r: "runDH3TempComparison arglim tz y m N d = Inr r" and "1 \<le> N" "0 \<le> m" "m < 12"
  shows "length r = nat N \<and>
    (\<forall>k < nat N.
       month_stat arglim tz (target_month y m (nat N - 1 - k)) d = Inr (r ! k) \<and>
       month_index (month (r ! k)) = 12 * y + m - (N - 1 - int k)) \<and>
    month (last r) = (y, m) \<and>
    (\<forall>k. k + 1 < nat N \<longrightarrow> monthEnd tz (month (r ! k)) < monthStart tz (month (r ! (k + 1))))"
proof -
  note len = run_Inr(1)[OF r] and nth = run_Inr(2)[OF r]
  have mon: "month (r ! k) = target_month y m (nat N - 1 - k)" if "k < nat N" for k
    using month_stat_fields(1)[OF nth[OF that]] .
  have idx: "month_index (month (r ! k)) = 12 * y + m - (N - 1 - int k)" if "k < nat N" for k
  proof -
    have "int (nat N - 1 - k) = N - 1 - int k" using that by simp
    then show ?thesis using that by (simp add: mon month_index_target)
  qed
  have ne: "r \<noteq> []" using assms(2) len by auto
  have "last r = r ! (nat N - 1)" using ne by (simp add: last_conv_nth len)
  then have lst: "month (last r) = (y, m)"
    using assms(2,3,4) mon[of "nat N - 1"] by (simp add: target_month_0)
  have ord: "monthEnd tz (month (r ! k)) < monthStart tz (month (r ! (k + 1)))" if "k + 1 < nat N" for k
  proof -
    have "month_index (month (r ! k)) < month_index (month (r ! (k + 1)))"
      using that idx[of k] idx[of "k + 1"] by simp
    then show ?thesis by (rule window_before)
  qed
  show ?thesis using len nth idx lst ord by simp
qed

text \<open>
  Claim C1 at a month with more hot readings than a call takes arguments. When the hot
  or the cold group of one of the months asked for is longer than the argument limit,
  \<open>Math.max(...allHotReadings)\<close> throws a \<open>RangeError\<close>, the loop is left, the
  \<open>catch\<close> block reports the error and no record is shown: not \<open>N\<close>, but none.
\<close>

theorem run_throws_on_oversize_month:
  assumes "i < nat N"
    and "arglim < length (fst (separate (month_filter tz (target_month y m i) d))) \<or>
         arglim < length (snd (separate (month_filter tz (target_month y m i) d)))"
  shows "runDH3TempComparison arglim tz y m N d = Inl RangeError"
  using assms by (rule run_throws)

text \<open>One month asked in March 2024, in a UTC zone, with 200000 readings of \<open>dh3-up\<close>
  on 1 March, on an engine that takes 65536 arguments.\<close>

theorem run_throws_on_oversize_month_witness:
  "(0::nat) < nat 1 \<and>
   length (fst (separate (month_filter 0 (target_month 2024 2 0)
     (replicate 200000
        \<lparr>created = 1709251200000, location = ''dh3-up'', reading = JsonNum (Num 30)\<rparr>)))) = 200000 \<and>
   runDH3TempComparison 65536 0 2024 2 1
     (replicate 200000
        \<lparr>created = 1709251200000, location = ''dh3-up'', reading = JsonNum (Num 30)\<rparr>) =
     Inl RangeError"
proof -
  let ?e = "\<lparr>created = 1709251200000 :: int, location = ''dh3-up'', reading = JsonNum (Num 30)\<rparr>"
  have up: "endsWith ''dh3-up'' ''-up''" by (simp add: endsWith_def)
  have t: "target_month 2024 2 0 = (2024, 2)" by (simp add: target_month_def)
  have f: "month_filter 0 (2024, 2) (replicate 200000 ?e) = replicate 200000 ?e"
    by (simp add: month_filter_def march_2024)
  have l: "length (fst (separate (month_filter 0 (target_month 2024 2 0) (replicate 200000 ?e)))) = 200000"
    by (simp add: t f separate_filter up)
  have i: "(0::nat) < nat 1" by simp
  have "runDH3TempComparison 65536 0 2024 2 1 (replicate 200000 ?e) = Inl RangeError"
    by (rule run_throws_on_oversize_month[OF i]) (simp add: l)
  with i l show ?thesis by blast
qed

text \<open>
  Claim C10. The month windows of two different months asked for have no instant in
  common, so no reading is in the filtered month data of both. For two different records
  of one analysis: their windows have no instant in common, no reading is in the filtered
  month data of both, none is in the hot or cold data of both, and \<open>totalReadings\<close>
  counts the filtered data of its own month.
\<close>

theorem month_windows_pairwise_disjoint:
  assumes "runDH3TempComparison arglim tz y m N d = Inr r" "k < length r" "k' < length r" "k \<noteq> k'"
  shows
   "(\<forall>x. \<not> (monthStart tz (month (r ! k)) \<le> x \<and> x \<le> monthEnd tz (month (r ! k)) \<and>
            monthStart tz (month (r ! k')) \<le> x \<and> x \<le> monthEnd tz (month (r ! k')))) \<and>
    set (month_filter tz (month (r ! k)) d) \<inter> set (month_filter tz (month (r ! k')) d) = {} \<and>
    (set (hotData (r ! k)) \<union> set (coldData (r ! k))) \<inter>
    (set (hotData (r ! k')) \<union> set (coldData (r ! k'))) = {} \<and>
    totalReadings (r ! k) = length (month_filter tz (month (r ! k)) d) \<and>
    (\<forall>i j. i \<noteq> j \<longrightarrow>
       set (month_filter tz (target_month y m i) d) \<inter>
       set (month_filter tz (target_month y m j) d) = {})"
proof -
  note len = run_Inr(1)[OF assms(1)] and nth = run_Inr(2)[OF assms(1)]
  let ?i = "nat N - 1 - k" and ?j = "nat N - 1 - k'"
  let ?s = "target_month y m ?i" and ?t = "target_month y m ?j"
  have kN: "k < nat N" "k' < nat N" using assms(2,3) len by simp_all
  have ij: "?i \<noteq> ?j" using kN assms(4) by linarith
  have rk: "month_stat arglim tz ?s d = Inr (r ! k)"
    and rk': "month_stat arglim tz ?t d = Inr (r ! k')"
    using nth[OF kN(1)] nth[OF kN(2)] .
  have mk: "month (r ! k) = ?s" and mk': "month (r ! k') = ?t"
    using month_stat_fields(1)[OF rk] month_stat_fields(1)[OF rk'] by simp_all
  have w: "\<not> (monthStart tz ?s \<le> x \<and> x \<le> monthEnd tz ?s \<and> monthStart tz ?t \<le> x \<and> x \<le> monthEnd tz ?t)" for x
    using windows_apart[OF ij] .
  have all: "set (month_filter tz (target_month y m i) d) \<inter>
       set (month_filter tz (target_month y m j) d) = {}" if "i \<noteq> j" for i j
    using windows_apart[OF that, of tz y m] by (auto simp: month_filter_def)
  have f: "set (month_filter tz ?s d) \<inter> set (month_filter tz ?t d) = {}"
    using ij by (rule all)
  have sub: "set (hotData (r ! k)) \<union> set (coldData (r ! k)) \<subseteq> set (month_filter tz ?s d)"
    by (auto simp: hotData_stat[OF rk] coldData_stat[OF rk])
  have sub': "set (hotData (r ! k')) \<union> set (coldData (r ! k')) \<subseteq> set (month_filter tz ?t d)"
    by (auto simp: hotData_stat[OF rk'] coldData_stat[OF rk'])
  have g: "(set (hotData (r ! k)) \<union> set (coldData (r ! k))) \<inter>
           (set (hotData (r ! k')) \<union> set (coldData (r ! k'))) = {}"
    using f sub sub' by blast
  have tot: "totalReadings (r ! k) = length (month_filter tz ?s d)"
    using month_stat_fields(14)[OF rk] .
  show ?thesis
    unfolding mk mk' using w f g tot all by blast
qed

text \<open>Two months asked in March 2024, with one reading on 1 March: the record of
  February has no reading and the record of March has the one.\<close>

theorem month_windows_pairwise_disjoint_witness:
  "runDH3TempComparison 65536 0 2024 2 2
     [\<lparr>created = 1709251200000, location = ''dh3-up'', reading = JsonNum (Num 30)\<rparr>] =
   Inr [\<lparr>month = (2024, 1), hotData = [], coldData = [], hotSensors = [], coldSensors = [],
         overallHotAvg = Num 0, overallColdAvg = Num 0, hotPeak = Num 0, hotBottom = Num 0,
         coldPeak = Num 0, coldBottom = Num 0, hotMedian = Some 0, coldMedian = Some 0,
         totalReadings = 0\<rparr>,
        \<lparr>month = (2024, 2),
         hotData = [\<lparr>created = 1709251200000, location = ''dh3-up'', reading = JsonNum (Num 30)\<rparr>],
         coldData = [], hotSensors = [''dh3-up''], coldSensors = [],
         overallHotAvg = Num 30, overallColdAvg = Num 0, hotPeak = Num 30, hotBottom = Num 30,
         coldPeak = Num 0, coldBottom = Num 0, hotMedian = Some 30, coldMedian = Some 0,
         totalReadings = 1\<rparr>] \<and>
   set (month_filter 0 (2024, 1)
         [\<lparr>created = 1709251200000, location = ''dh3-up'', reading = JsonNum (Num 30)\<rparr>]) \<inter>
   set (month_filter 0 (2024, 2)
         [\<lparr>created = 1709251200000, location = ''dh3-up'', reading = JsonNum (Num 30)\<rparr>]) = {}"
proof -
  let ?e = "\<lparr>created = 1709251200000 :: int, location = ''dh3-up'', reading = JsonNum (Num 30)\<rparr>"
  let ?feb = "\<lparr>month = (2024, 1), hotData = [], coldData = [], hotSensors = [], coldSensors = [],
         overallHotAvg = Num 0, overallColdAvg = Num 0, hotPeak = Num 0, hotBottom = Num 0,
         coldPeak = Num 0, coldBottom = Num 0, hotMedian = Some 0, coldMedian = Some 0,
         totalReadings = 0\<rparr>"
  let ?mar = "\<lparr>month = (2024, 2), hotData = [?e],
         coldData = [], hotSensors = [''dh3-up''], coldSensors = [],
         overallHotAvg = Num 30, overallColdAvg = Num 0, hotPeak = Num 30, hotBottom = Num 30,
         coldPeak = Num 0, coldBottom = Num 0, hotMedian = Some 30, coldMedian = Some 0,
         totalReadings = 1\<rparr>"
  have up: "endsWith ''dh3-up'' ''-up''" by (simp add: endsWith_def)
  have t: "target_month 2024 2 0 = (2024, 2)" "target_month 2024 2 (Suc 0) = (2024, 1)"
    by (simp_all add: target_month_def)
  have feb: "monthStart 0 (2024, 1) = 1706745600000" "monthEnd 0 (2024, 1) = 1709251199000"
    by (simp_all add: monthStart_def monthEnd_def local_date_def make_day_def
        day_from_year_def days_before_month_def is_leap_def ms_per_day_def)
  have f: "month_filter 0 (2024, 2) [?e] = [?e]" "month_filter 0 (2024, 1) [?e] = []"
    by (simp_all add: month_filter_def march_2024 feb)
  have two: "[0..<2] = [0, Suc 0]" by (simp add: upt_rec)
  have run: "runDH3TempComparison 65536 0 2024 2 2 [?e] = Inr [?feb, ?mar]"
    by (simp add: runDH3TempComparison_def two t month_stat_def f separate_def separate_step_def
        up Let_def calculateSensorAverages_def grouped_step_def overall_avg_def peak_def
        bottom_def math_max_def math_min_def unique_def calculateMedian_def)
  have h: "(0::nat) < length [?feb, ?mar]" "(1::nat) < length [?feb, ?mar]" "(0::nat) \<noteq> 1"
    by simp_all
  from month_windows_pairwise_disjoint[OF run h]
  have "set (month_filter 0 (month ([?feb, ?mar] ! 0)) [?e]) \<inter>
        set (month_filter 0 (month ([?feb, ?mar] ! 1)) [?e]) = {}"
    by blast
  then have "set (month_filter 0 (2024, 1) [?e]) \<inter> set (month_filter 0 (2024, 2) [?e]) = {}"
    by simp
  with run show ?thesis by blast
qed

section \<open>The statistics of a sensor group\<close>

lemma unique_snoc: "unique (xs @ [x]) = (if x \<in> set xs then unique xs else unique xs @ [x])"
  by (simp add: unique_def)

lemma unique_Nil: "unique [] = []"
  by (simp add: unique_def)

lemma distinct_unique: "distinct (unique xs)"
  by (simp add: unique_def)

lemma grouped_step_keys:
  "map fst (grouped_step g e) =
     (if location e \<in> set (map fst g) then map fst g else map fst g @ [location e])"
  by (simp add: grouped_step_def Let_def update_keys)

lemma grouped_step_lookup:
  "map_of (grouped_step g e) =
     (map_of g)(location e \<mapsto>
        (let a = (case map_of g (location e) of
                    None \<Rightarrow> \<lparr>sum = Num 0, count = 0, readings = []\<rparr> | Some a \<Rightarrow> a)
         in \<lparr>sum = js_add (sum a) (to_number (reading e)), count = count a + 1,
             readings = readings a @ [reading e]\<rparr>))"
  by (simp add: grouped_step_def Let_def update_conv')

lemma grouped_keys: "map fst (foldl grouped_step [] data) = unique (map location data)"
proof (induction data rule: rev_induct)
  case Nil
  show ?case by (simp add: unique_Nil)
next
  case (snoc e data)
  then show ?case
    by (simp add: grouped_step_keys unique_snoc set_unique)
qed

lemma grouped_lookup:
  "map_of (foldl grouped_step [] data) l =
     (if l \<in> location ` set data then Some (acc_of data l) else None)"
proof (induction data arbitrary: l rule: rev_induct)
  case Nil
  show ?case by simp
next
  case (snoc e data)
  have no: "filter (\<lambda>ea. location ea = k) data = []" if "k \<notin> location ` set data" for k
    using that by (auto simp: filter_empty_conv)
  show ?case
  proof (cases "l = location e")
    case True
    then show ?thesis
      using snoc[of "location e"] no[of "location e"]
      by (auto simp: grouped_step_lookup Let_def acc_of_def)
  next
    case False
    then show ?thesis
      using snoc[of l]
      by (auto simp: grouped_step_lookup Let_def acc_of_def)
  qed
qed

lemma alist_by_keys:
  "distinct (map fst al) \<Longrightarrow> al = map (\<lambda>k. (k, the (map_of al k))) (map fst al)"
proof (induction al)
  case Nil
  show ?case by simp
next
  case (Cons p al)
  then have ih: "al = map (\<lambda>k. (k, the (map_of al k))) (map fst al)" by simp
  have "map (\<lambda>k. (k, the (map_of (p # al) k))) (map fst al) = map (\<lambda>k. (k, the (map_of al k))) (map fst al)"
    using Cons.prems by (intro map_cong) (auto simp: rev_image_eqI)
  with ih show ?case by (cases p) simp
qed

lemma grouped_eq:
  "foldl grouped_step [] data = map (\<lambda>l. (l, acc_of data l)) (unique (map location data))"
proof -
  let ?g = "foldl grouped_step [] data"
  have d: "distinct (map fst ?g)" by (simp add: grouped_keys distinct_unique)
  have "?g = map (\<lambda>k. (k, the (map_of ?g k))) (unique (map location data))"
    using alist_by_keys[OF d] by (simp add: grouped_keys)
  also have "\<dots> = map (\<lambda>l. (l, acc_of data l)) (unique (map location data))"
    by (rule map_cong) (auto simp: grouped_lookup set_unique)
  finally show ?thesis .
qed

lemma foldl_js_add_Num: "foldl js_add (Num a) (map Num xs) = Num (a + sum_list xs)"
  by (induction xs arbitrary: a) (simp_all add: add.assoc)




lemma foldl_js_max2_Num: "foldl js_max2 (Num a) (map Num xs) = Num (Max (set (a # xs)))"
proof (induction xs arbitrary: a)
  case Nil
  show ?case by simp
next
  case (Cons x xs)
  have "Max (insert (max a x) (set xs)) = Max (insert a (insert x (set xs)))"
    by (cases "xs = []") (auto simp: max.assoc)
  with Cons show ?case by simp
qed

lemma foldl_js_min2_Num: "foldl js_min2 (Num a) (map Num xs) = Num (Min (set (a # xs)))"
proof (induction xs arbitrary: a)
  case Nil
  show ?case by simp
next
  case (Cons x xs)
  have "Min (insert (min a x) (set xs)) = Min (insert a (insert x (set xs)))"
    by (cases "xs = []") (auto simp: min.assoc)
  with Cons show ?case by simp
qed







lemma numeric_reading: "numeric g \<Longrightarrow> e \<in> set g \<Longrightarrow> reading e = JsonNum (Num (value_of e))"
  by (auto simp: numeric_def value_of_def list_all_iff split: reading_value.splits jsnum.splits)

lemma numeric_to_number:
  assumes "numeric g" "set es \<subseteq> set g"
  shows "map (\<lambda>e. to_number (reading e)) es = map Num (map value_of es)"
  using assms by (auto simp: numeric_reading)


lemma averages_eq:
  "snd (calculateSensorAverages g) =
     map (\<lambda>l. (l, js_div (sum (acc_of g l)) (count (acc_of g l)))) (unique (map location g))"
  by (simp add: calculateSensorAverages_def Let_def grouped_eq comp_def)

lemma acc_numeric:
  assumes "numeric g" "l \<in> location ` set g"
  shows "js_div (sum (acc_of g l)) (count (acc_of g l)) = Num (location_mean g l)"
proof -
  let ?es = "filter (\<lambda>e. location e = l) g"
  have ne: "?es \<noteq> []" using assms(2) by (auto simp: filter_empty_conv)
  have eq: "map (\<lambda>e. to_number (reading e)) ?es = map Num (map value_of ?es)"
    using assms(1) by (intro numeric_to_number[of g]) auto
  have "foldl js_add (Num 0) (map (\<lambda>e. to_number (reading e)) ?es) = Num (sum_list (map value_of ?es))"
    by (simp only: eq foldl_js_add_Num) simp
  then have "sum (acc_of g l) = Num (sum_list (map value_of ?es))"
    by (simp add: acc_of_def Let_def)
  moreover have "count (acc_of g l) = length ?es" by (simp add: acc_of_def Let_def)
  ultimately show ?thesis using ne by (simp add: location_mean_def mean_def)
qed

lemma overall_avg_numeric:
  assumes "numeric g" "g \<noteq> []"
  shows "overall_avg (snd (calculateSensorAverages g)) =
           Num (mean (map (location_mean g) (unique (map location g))))"
proof -
  let ?ls = "unique (map location g)"
  have ne: "?ls \<noteq> []" using assms(2) set_unique[of "map location g"] by (cases g) auto
  have "map snd (snd (calculateSensorAverages g)) =
          map (\<lambda>l. js_div (sum (acc_of g l)) (count (acc_of g l))) ?ls"
    by (simp add: averages_eq comp_def)
  also have "\<dots> = map (\<lambda>l. Num (location_mean g l)) ?ls"
    using assms(1) by (intro map_cong) (auto simp: acc_numeric set_unique)
  also have "\<dots> = map Num (map (location_mean g) ?ls)" by simp
  finally have v: "map snd (snd (calculateSensorAverages g)) = map Num (map (location_mean g) ?ls)" .
  show ?thesis
    using ne by (simp add: overall_avg_def Let_def v foldl_js_add_Num mean_def del: map_map)
qed




lemma peak_numeric:
  assumes "numeric g" "g \<noteq> []" "peak arglim (map reading g) = Inr v"
  shows "v = Num (Max (value_of ` set g))"
proof -
  obtain e es where g: "g = e # es" using assms(2) by (cases g) auto
  have r: "map reading g = map (\<lambda>e. JsonNum (Num (value_of e))) g"
    using assms(1) by (auto simp: numeric_reading)
  have "map to_number (map (\<lambda>e. JsonNum (Num (value_of e))) es) = map Num (map value_of es)" by simp
  then have "(case map reading g of [] \<Rightarrow> Num 0 | x # xs \<Rightarrow> math_max x xs) = Num (Max (value_of ` set g))"
    unfolding r by (simp add: g math_max_def foldl_js_max2_Num del: map_map)
  with peak_Inr[OF assms(3)] show ?thesis by simp
qed

lemma bottom_numeric:
  assumes "numeric g" "g \<noteq> []" "bottom arglim (map reading g) = Inr v"
  shows "v = Num (Min (value_of ` set g))"
proof -
  obtain e es where g: "g = e # es" using assms(2) by (cases g) auto
  have r: "map reading g = map (\<lambda>e. JsonNum (Num (value_of e))) g"
    using assms(1) by (auto simp: numeric_reading)
  have "map to_number (map (\<lambda>e. JsonNum (Num (value_of e))) es) = map Num (map value_of es)" by simp
  then have "(case map reading g of [] \<Rightarrow> Num 0 | x # xs \<Rightarrow> math_min x xs) = Num (Min (value_of ` set g))"
    unfolding r by (simp add: g math_min_def foldl_js_min2_Num del: map_map)
  with bottom_Inr[OF assms(3)] show ?thesis by simp
qed


lemma finite_values_numeric:
  "numeric g \<Longrightarrow> finite_values (map reading g) = Some (map value_of g)"
proof (induction g)
  case Nil
  show ?case by simp
next
  case (Cons e g)
  then have "reading e = JsonNum (Num (value_of e))" "numeric g"
    using numeric_reading[of "e # g" e] by (auto simp: numeric_def)
  with Cons.IH show ?case by simp
qed

lemma calc_two:
  "snd (calculateSensorAverages
     [\<lparr>created = a, location = ''dh3-up'', reading = JsonNum (Num 30)\<rparr>,
      \<lparr>created = b, location = ''dh3-up'', reading = JsonNum (Num 50)\<rparr>]) = [(''dh3-up'', Num 40)]"
  by (simp add: calculateSensorAverages_def grouped_step_def Let_def)

lemma calc_nil: "snd (calculateSensorAverages []) = []"
  by (simp add: calculateSensorAverages_def)

lemma calc_one:
  "snd (calculateSensorAverages
     [\<lparr>created = b, location = ''dh3-up'', reading = JsonNum (Num 50)\<rparr>]) = [(''dh3-up'', Num 50)]"
  by (simp add: calculateSensorAverages_def grouped_step_def Let_def)

lemma example_east:
  assumes "2 \<le> arglim" "0 \<le> tz" "tz \<le> 50400000"
  shows "runDH3TempComparison arglim tz 2024 2 1
      [\<lparr>created = 1709251200000, location = ''dh3-up'', reading = JsonNum (Num 30)\<rparr>,
       \<lparr>created = 1709337600000, location = ''dh3-up'', reading = JsonNum (Num 50)\<rparr>] =
     Inr [\<lparr>month = (2024, 2),
       hotData = [\<lparr>created = 1709251200000, location = ''dh3-up'', reading = JsonNum (Num 30)\<rparr>,
                  \<lparr>created = 1709337600000, location = ''dh3-up'', reading = JsonNum (Num 50)\<rparr>],
       coldData = [], hotSensors = [''dh3-up''], coldSensors = [],
       overallHotAvg = Num 40, overallColdAvg = Num 0,
       hotPeak = Num 50, hotBottom = Num 30, coldPeak = Num 0, coldBottom = Num 0,
       hotMedian = Some 40, coldMedian = Some 0, totalReadings = 2\<rparr>]"
proof -
  have up: "endsWith ''dh3-up'' ''-up''" by (simp add: endsWith_def)
  have t: "target_month 2024 2 0 = (2024, 2)" by (simp add: target_month_def)
  have f: "month_filter tz (2024, 2)
      [\<lparr>created = 1709251200000, location = ''dh3-up'', reading = JsonNum (Num 30)\<rparr>,
       \<lparr>created = 1709337600000, location = ''dh3-up'', reading = JsonNum (Num 50)\<rparr>] =
      [\<lparr>created = 1709251200000, location = ''dh3-up'', reading = JsonNum (Num 30)\<rparr>,
       \<lparr>created = 1709337600000, location = ''dh3-up'', reading = JsonNum (Num 50)\<rparr>]"
    using assms by (simp add: month_filter_def march_2024)
  show ?thesis
    using assms(1)
    by (simp add: runDH3TempComparison_def t month_stat_def f separate_def separate_step_def up
        Let_def calc_two calc_nil overall_avg_def peak_def bottom_def math_max_def math_min_def
        unique_def calculateMedian_def)
qed

lemma example_west:
  "runDH3TempComparison 65536 (- 18000000) 2024 2 1
      [\<lparr>created = 1709251200000, location = ''dh3-up'', reading = JsonNum (Num 30)\<rparr>,
       \<lparr>created = 1709337600000, location = ''dh3-up'', reading = JsonNum (Num 50)\<rparr>] =
     Inr [\<lparr>month = (2024, 2),
       hotData = [\<lparr>created = 1709337600000, location = ''dh3-up'', reading = JsonNum (Num 50)\<rparr>],
       coldData = [], hotSensors = [''dh3-up''], coldSensors = [],
       overallHotAvg = Num 50, overallColdAvg = Num 0,
       hotPeak = Num 50, hotBottom = Num 50, coldPeak = Num 0, coldBottom = Num 0,
       hotMedian = Some 50, coldMedian = Some 0, totalReadings = 1\<rparr>]"
proof -
  have up: "endsWith ''dh3-up'' ''-up''" by (simp add: endsWith_def)
  have t: "target_month 2024 2 0 = (2024, 2)" by (simp add: target_month_def)
  have f: "month_filter (- 18000000) (2024, 2)
      [\<lparr>created = 1709251200000, location = ''dh3-up'', reading = JsonNum (Num 30)\<rparr>,
       \<lparr>created = 1709337600000, location = ''dh3-up'', reading = JsonNum (Num 50)\<rparr>] =
      [\<lparr>created = 1709337600000, location = ''dh3-up'', reading = JsonNum (Num 50)\<rparr>]"
    by (simp add: month_filter_def march_2024)
  show ?thesis
    by (simp add: runDH3TempComparison_def t month_stat_def f separate_def separate_step_def up
        Let_def calc_one calc_nil overall_avg_def peak_def bottom_def math_max_def math_min_def
        unique_def calculateMedian_def)
qed

lemma group_numeric:
  assumes "numeric g" "g \<noteq> []"
    and "peak arglim (map reading g) = Inr p" "bottom arglim (map reading g) = Inr b"
  shows "overall_avg (snd (calculateSensorAverages g)) =
           Num (mean (map (location_mean g) (unique (map location g)))) \<and>
         p = Num (Max (value_of ` set g)) \<and> b = Num (Min (value_of ` set g))"
  using assms by (simp add: overall_avg_numeric peak_numeric bottom_numeric)






text \<open>
  Claim C3, as amended. In the record of a month, for a sensor group whose readings are
  finite numbers, the overall average is the unweighted mean of the means of the
  distinct locations, the peak is the largest raw reading and the bottom the smallest.
  For the two readings of \<open>dh3-up\<close> at 2024-03-01T00:00:00Z and 2024-03-02T00:00:00Z
  with the values 30 and 50, analysed for March 2024 in a local zone \<open>z\<close> at or east of
  UTC (up to 14 hours), on an engine whose calls take two arguments or more, the hot
  group has one sensor, average 40, median 40, peak 50 and bottom 30, and the cold
  group's statistics are all zero. The month window is taken in local time, so the zone
  matters.
\<close>

theorem group_average_is_mean_of_sensor_means:
  "(month_stat arglim tz t d = Inr s \<longrightarrow>
      (numeric (hotData s) \<and> hotData s \<noteq> [] \<longrightarrow>
         overallHotAvg s = Num (mean (map (location_mean (hotData s)) (hotSensors s))) \<and>
         hotPeak s = Num (Max (value_of ` set (hotData s))) \<and>
         hotBottom s = Num (Min (value_of ` set (hotData s)))) \<and>
      (numeric (coldData s) \<and> coldData s \<noteq> [] \<longrightarrow>
         overallColdAvg s = Num (mean (map (location_mean (coldData s)) (coldSensors s))) \<and>
         coldPeak s = Num (Max (value_of ` set (coldData s))) \<and>
         coldBottom s = Num (Min (value_of ` set (coldData s))))) \<and>
   (2 \<le> n \<and> 0 \<le> z \<and> z \<le> 50400000 \<longrightarrow>
      runDH3TempComparison n z 2024 2 1
        [\<lparr>created = 1709251200000, location = ''dh3-up'', reading = JsonNum (Num 30)\<rparr>,
         \<lparr>created = 1709337600000, location = ''dh3-up'', reading = JsonNum (Num 50)\<rparr>] =
      Inr [\<lparr>month = (2024, 2),
        hotData = [\<lparr>created = 1709251200000, location = ''dh3-up'', reading = JsonNum (Num 30)\<rparr>,
                   \<lparr>created = 1709337600000, location = ''dh3-up'', reading = JsonNum (Num 50)\<rparr>],
        coldData = [], hotSensors = [''dh3-up''], coldSensors = [],
        overallHotAvg = Num 40, overallColdAvg = Num 0,
        hotPeak = Num 50, hotBottom = Num 30, coldPeak = Num 0, coldBottom = Num 0,
        hotMedian = Some 40, coldMedian = Some 0, totalReadings = 2\<rparr>])"
proof -
  have rec: "(numeric (hotData s) \<and> hotData s \<noteq> [] \<longrightarrow>
         overallHotAvg s = Num (mean (map (location_mean (hotData s)) (hotSensors s))) \<and>
         hotPeak s = Num (Max (value_of ` set (hotData s))) \<and>
         hotBottom s = Num (Min (value_of ` set (hotData s)))) \<and>
      (numeric (coldData s) \<and> coldData s \<noteq> [] \<longrightarrow>
         overallColdAvg s = Num (mean (map (location_mean (coldData s)) (coldSensors s))) \<and>
         coldPeak s = Num (Max (value_of ` set (coldData s))) \<and>
         coldBottom s = Num (Min (value_of ` set (coldData s))))"
    if s: "month_stat arglim tz t d = Inr s"
  proof -
    note f = month_stat_fields[OF s]
    show ?thesis
      using group_numeric[OF _ _ f(8) f(9)] group_numeric[OF _ _ f(10) f(11)]
      by (simp add: f(4) f(5) f(6) f(7))
  qed
  show ?thesis using rec example_east[of n z] by blast
qed

text \<open>Two hot readings and one cold reading in March 2024, in a UTC zone, on an engine
  that takes 65536 arguments; and the example there.\<close>

theorem group_average_is_mean_of_sensor_means_witness:
  "month_stat 65536 0 (2024, 2)
      [\<lparr>created = 1709251200000, location = ''dh3-up'', reading = JsonNum (Num 30)\<rparr>,
       \<lparr>created = 1709337600000, location = ''dh3-up'', reading = JsonNum (Num 50)\<rparr>,
       \<lparr>created = 1709251200000, location = ''dh3-down'', reading = JsonNum (Num 20)\<rparr>] =
     Inr \<lparr>month = (2024, 2),
       hotData = [\<lparr>created = 1709251200000, location = ''dh3-up'', reading = JsonNum (Num 30)\<rparr>,
                  \<lparr>created = 1709337600000, location = ''dh3-up'', reading = JsonNum (Num 50)\<rparr>],
       coldData = [\<lparr>created = 1709251200000, location = ''dh3-down'', reading = JsonNum (Num 20)\<rparr>],
       hotSensors = [''dh3-up''], coldSensors = [''dh3-down''],
       overallHotAvg = Num 40, overallColdAvg = Num 20,
       hotPeak = Num 50, hotBottom = Num 30, coldPeak = Num 20, coldBottom = Num 20,
       hotMedian = Some 40, coldMedian = Some 20, totalReadings = 3\<rparr> \<and>
   numeric
      [\<lparr>created = 1709251200000 :: int, location = ''dh3-up'', reading = JsonNum (Num 30)\<rparr>,
       \<lparr>created = 1709337600000, location = ''dh3-up'', reading = JsonNum (Num 50)\<rparr>] \<and>
   Num 40 = Num (mean (map (location_mean
      [\<lparr>created = 1709251200000 :: int, location = ''dh3-up'', reading = JsonNum (Num 30)\<rparr>,
       \<lparr>created = 1709337600000, location = ''dh3-up'', reading = JsonNum (Num 50)\<rparr>])
      [''dh3-up''])) \<and>
   Num 50 = Num (Max (value_of ` set
      [\<lparr>created = 1709251200000 :: int, location = ''dh3-up'', reading = JsonNum (Num 30)\<rparr>,
       \<lparr>created = 1709337600000, location = ''dh3-up'', reading = JsonNum (Num 50)\<rparr>])) \<and>
   (2::nat) \<le> 65536 \<and> (0::int) \<le> 0 \<and> (0::int) \<le> 50400000 \<and>
   runDH3TempComparison 65536 0 2024 2 1
        [\<lparr>created = 1709251200000, location = ''dh3-up'', reading = JsonNum (Num 30)\<rparr>,
         \<lparr>created = 1709337600000, location = ''dh3-up'', reading = JsonNum (Num 50)\<rparr>] =
      Inr [\<lparr>month = (2024, 2),
        hotData = [\<lparr>created = 1709251200000, location = ''dh3-up'', reading = JsonNum (Num 30)\<rparr>,
                   \<lparr>created = 1709337600000, location = ''dh3-up'', reading = JsonNum (Num 50)\<rparr>],
        coldData = [], hotSensors = [''dh3-up''], coldSensors = [],
        overallHotAvg = Num 40, overallColdAvg = Num 0,
        hotPeak = Num 50, hotBottom = Num 30, coldPeak = Num 0, coldBottom = Num 0,
        hotMedian = Some 40, coldMedian = Some 0, totalReadings = 2\<rparr>]"
proof -
  let ?a = "\<lparr>created = 1709251200000 :: int, location = ''dh3-up'', reading = JsonNum (Num 30)\<rparr>"
  let ?b = "\<lparr>created = 1709337600000 :: int, location = ''dh3-up'', reading = JsonNum (Num 50)\<rparr>"
  let ?c = "\<lparr>created = 1709251200000 :: int, location = ''dh3-down'', reading = JsonNum (Num 20)\<rparr>"
  let ?s = "\<lparr>month = (2024, 2), hotData = [?a, ?b], coldData = [?c],
       hotSensors = [''dh3-up''], coldSensors = [''dh3-down''],
       overallHotAvg = Num 40, overallColdAvg = Num 20,
       hotPeak = Num 50, hotBottom = Num 30, coldPeak = Num 20, coldBottom = Num 20,
       hotMedian = Some 40, coldMedian = Some 20, totalReadings = 3\<rparr>"
  have up: "endsWith ''dh3-up'' ''-up''" "\<not> endsWith ''dh3-down'' ''-up''"
    "endsWith ''dh3-down'' ''-down''" "\<not> endsWith ''dh3-up'' ''-down''"
    by (simp_all add: endsWith_def)
  have f: "month_filter 0 (2024, 2) [?a, ?b, ?c] = [?a, ?b, ?c]"
    by (simp add: month_filter_def march_2024)
  have c1: "snd (calculateSensorAverages [?c]) = [(''dh3-down'', Num 20)]"
    by (simp add: calculateSensorAverages_def grouped_step_def Let_def)
  have st: "month_stat 65536 0 (2024, 2) [?a, ?b, ?c] = Inr ?s"
    by (simp add: month_stat_def f separate_def separate_step_def up Let_def calc_two c1
        overall_avg_def peak_def bottom_def math_max_def math_min_def unique_def
        calculateMedian_def)
  have nh: "numeric [?a, ?b]" by (simp add: numeric_def)
  have h: "(2::nat) \<le> 65536 \<and> (0::int) \<le> 0 \<and> (0::int) \<le> 50400000" by simp
  note t = group_average_is_mean_of_sensor_means[of 65536 0 "(2024, 2)" "[?a, ?b, ?c]" ?s 65536 0]
  from t st nh have "overallHotAvg ?s = Num (mean (map (location_mean (hotData ?s)) (hotSensors ?s))) \<and>
      hotPeak ?s = Num (Max (value_of ` set (hotData ?s)))"
    by simp
  then have 1: "Num 40 = Num (mean (map (location_mean [?a, ?b]) [''dh3-up''])) \<and>
      Num 50 = Num (Max (value_of ` set [?a, ?b]))"
    by simp
  from t h have 3: "runDH3TempComparison 65536 0 2024 2 1 [?a, ?b] =
      Inr [\<lparr>month = (2024, 2), hotData = [?a, ?b],
        coldData = [], hotSensors = [''dh3-up''], coldSensors = [],
        overallHotAvg = Num 40, overallColdAvg = Num 0,
        hotPeak = Num 50, hotBottom = Num 30, coldPeak = Num 0, coldBottom = Num 0,
        hotMedian = Some 40, coldMedian = Some 0, totalReadings = 2\<rparr>]"
    by blast
  from st nh 1 h 3 show ?thesis by blast
qed

text \<open>
  The example of claim C3 five hours west of UTC: March starts at 05:00 UTC on 1 March,
  the reading of 2024-03-01T00:00:00Z falls in February, and the hot group of March has
  one reading, average 50 and bottom 50, not 40 and 30.
\<close>

theorem march_example_west_of_utc:
  "runDH3TempComparison 65536 (- 18000000) 2024 2 1
      [\<lparr>created = 1709251200000, location = ''dh3-up'', reading = JsonNum (Num 30)\<rparr>,
       \<lparr>created = 1709337600000, location = ''dh3-up'', reading = JsonNum (Num 50)\<rparr>] =
     Inr [\<lparr>month = (2024, 2),
       hotData = [\<lparr>created = 1709337600000, location = ''dh3-up'', reading = JsonNum (Num 50)\<rparr>],
       coldData = [], hotSensors = [''dh3-up''], coldSensors = [],
       overallHotAvg = Num 50, overallColdAvg = Num 0,
       hotPeak = Num 50, hotBottom = Num 50, coldPeak = Num 0, coldBottom = Num 0,
       hotMedian = Some 50, coldMedian = Some 0, totalReadings = 1\<rparr>] \<and>
   map_sum id (map overallHotAvg) (runDH3TempComparison 65536 (- 18000000) 2024 2 1
      [\<lparr>created = 1709251200000, location = ''dh3-up'', reading = JsonNum (Num 30)\<rparr>,
       \<lparr>created = 1709337600000, location = ''dh3-up'', reading = JsonNum (Num 50)\<rparr>]) \<noteq>
     Inr [Num 40] \<and>
   map_sum id (map hotBottom) (runDH3TempComparison 65536 (- 18000000) 2024 2 1
      [\<lparr>created = 1709251200000, location = ''dh3-up'', reading = JsonNum (Num 30)\<rparr>,
       \<lparr>created = 1709337600000, location = ''dh3-up'', reading = JsonNum (Num 50)\<rparr>]) \<noteq>
     Inr [Num 30]"
  by (simp add: example_west)








section \<open>Properties of the capacity sums and the CSV export\<close>

lemma digits_numeral [simp]:
  "digits (numeral k) =
     (if numeral k < (10::nat) then [''0123456789'' ! numeral k]
      else digits (numeral k div 10) @ [''0123456789'' ! (numeral k mod 10)])"
  by (rule digits.simps)

lemma digits_0 [simp]: "digits 0 = ''0''"
  by (simp add: digits.simps)

lemma digits_1 [simp]: "digits (Suc 0) = ''1''"
  by (simp add: digits.simps)

lemma digit_char: "d < 10 \<Longrightarrow> is_digit (''0123456789'' ! d)"
proof -
  assume "d < 10"
  then have "d < length ''0123456789''" by simp
  then have "''0123456789'' ! d \<in> set ''0123456789''" by (rule nth_mem)
  then show ?thesis by (simp only: is_digit_def)
qed

lemma digits_all: "list_all is_digit (digits n) \<and> digits n \<noteq> []"
proof (induction n rule: digits.induct)
  case (1 n)
  show ?case
  proof (cases "n < 10")
    case True
    then show ?thesis by (simp add: digits.simps[of n] digit_char)
  next
    case False
    have "n mod 10 < 10" by simp
    then have "is_digit (''0123456789'' ! (n mod 10))" by (rule digit_char)
    with 1 False show ?thesis by (simp add: digits.simps[of n])
  qed
qed

lemma floor_rat_numeral [simp]:
  "\<lfloor>(numeral a :: rat) / numeral b\<rfloor> = numeral a div numeral b"
  using floor_divide_of_int_eq[of "numeral a" "numeral b", where ?'a = rat] by simp

lemma is_digit_not_minus: "is_digit c \<Longrightarrow> c \<noteq> CHR ''-''"
  by (auto simp: is_digit_def)

lemma two_decimals_shape:
  assumes d: "list_all is_digit m" and l: "3 \<le> length m"
  shows "two_decimals (take (length m - 2) m @ ''.'' @ drop (length m - 2) m)"
    and "two_decimals (''-'' @ take (length m - 2) m @ ''.'' @ drop (length m - 2) m)"
proof -
  let ?k = "length m"
  let ?body = "take (?k - 2) m @ ''.'' @ drop (?k - 2) m"
  have len: "length ?body = ?k + 1" using l by simp
  have ne: "take (?k - 2) m \<noteq> []" using l by auto
  have "hd ?body = hd m" using ne l by (cases m) auto
  moreover have "is_digit (hd m)" using d l by (cases m) auto
  ultimately have hd: "hd ?body \<noteq> CHR ''-''" using is_digit_not_minus by metis
  have dot: "?body ! (?k + 1 - 3) = CHR ''.''"
  proof -
    have "?k + 1 - 3 = length (take (?k - 2) m)" using l by simp
    then show ?thesis by (metis nth_append_length append_Cons)
  qed
  have tk: "take (?k + 1 - 3) ?body = take (?k - 2) m" using l by simp
  have dr: "drop (?k + 1 - 2) ?body = drop (?k - 2) m" using l by simp
  have td: "list_all is_digit (take (?k - 2) m)" "list_all is_digit (drop (?k - 2) m)"
    using d by (auto simp: list_all_iff dest: in_set_takeD in_set_dropD)
  have core: "4 \<le> length ?body \<and> ?body ! (length ?body - 3) = CHR ''.'' \<and>
      list_all is_digit (take (length ?body - 3) ?body) \<and>
      list_all is_digit (drop (length ?body - 2) ?body)"
    unfolding len using l dot tk dr td by simp
  have b1: "(if ?body \<noteq> [] \<and> hd ?body = CHR ''-'' then tl ?body else ?body) = ?body"
    using hd by simp
  show "two_decimals ?body"
    unfolding two_decimals_def Let_def b1 using core by blast
  have b2: "(if ''-'' @ ?body \<noteq> [] \<and> hd (''-'' @ ?body) = CHR ''-'' then tl (''-'' @ ?body) else ''-'' @ ?body) = ?body"
    by simp
  show "two_decimals (''-'' @ ?body)"
    unfolding two_decimals_def Let_def b2 using core by blast
qed

lemma two_decimals_fixed2: "two_decimals (fixed2 x)"
proof -
  define n where "n = nat \<lfloor>(if x < 0 then - x else x) * 100 + 1 / 2\<rfloor>"
  define m where "m = (if length (digits n) \<le> 2
      then replicate (3 - length (digits n)) (CHR ''0'') @ digits n else digits n)"
  have z: "is_digit (CHR ''0'')" by (simp add: is_digit_def)
  have d: "list_all is_digit m"
    using digits_all[of n] z by (auto simp: m_def list_all_iff)
  have l: "3 \<le> length m" by (auto simp: m_def)
  have "fixed2 x = (if x < 0 then ''-'' else '''') @ take (length m - 2) m @ ''.'' @ drop (length m - 2) m"
    by (simp add: fixed2_def Let_def m_def n_def)
  then show ?thesis using two_decimals_shape[OF d l] by (cases "x < 0") simp_all
qed

lemma toFixed2_small: "\<bar>x\<bar> < 10 ^ 21 \<Longrightarrow> toFixed2 (Num x) = Text (fixed2 x)"
  by simp

lemma sumForRow_five:
  "sumForRow row f =
     number_or_zero (props row (field_key ''dh1'' f)) +
     number_or_zero (props row (field_key ''dh2'' f)) +
     number_or_zero (props row (field_key ''dh3'' f)) +
     number_or_zero (props row (field_key ''dh4'' f)) +
     number_or_zero (props row (field_key ''dh5'' f))"
  by (simp add: sumForRow_def dhKeys_def)

text \<open>
  Claim C5. For every row and every suffix, \<open>sumForRow\<close> is the sum over the five
  zones \<open>dh1\<close> to \<open>dh5\<close> of the value under the key made of the zone, an underscore
  and the suffix, where a value that is absent, not a number, or \<open>NaN\<close> counts as 0
  and a number counts as itself; \<open>getFieldValue\<close> with the site key \<open>total\<close> is that
  sum, and with any other site key it is the zone's own value, 0 when that is absent,
  not a number, or \<open>NaN\<close>.
\<close>

theorem sumForRow_sums_the_five_zones:
  "sumForRow row f =
     number_or_zero (props row (field_key ''dh1'' f)) +
     number_or_zero (props row (field_key ''dh2'' f)) +
     number_or_zero (props row (field_key ''dh3'' f)) +
     number_or_zero (props row (field_key ''dh4'' f)) +
     number_or_zero (props row (field_key ''dh5'' f)) \<and>
   getFieldValue row ''total'' f = sumForRow row f \<and>
   (z \<noteq> ''total'' \<longrightarrow> getFieldValue row z f = number_or_zero (props row (field_key z f))) \<and>
   field_key z f = z @ ''_'' @ suffix_name f \<and>
   number_or_zero (Number (Num x)) = x \<and> number_or_zero (Number NaN) = 0 \<and>
   number_or_zero Undefined = 0 \<and> number_or_zero Null = 0 \<and>
   number_or_zero (String s) = 0 \<and> number_or_zero (Boolean b) = 0"
  by (simp add: sumForRow_five getFieldValue_def field_key_def)

text \<open>A row with planned loads 10, \<open>NaN\<close>, a string, nothing and 5: the total is 15,
  the value of \<open>dh1\<close> is 10.\<close>

theorem sumForRow_sums_the_five_zones_witness:
  "''dh1'' \<noteq> ''total'' \<and>
   sumForRow \<lparr>row_month = ''2024-03'',
       props = (\<lambda>k. Undefined)(''dh1_planned'' := Number (Num 10), ''dh2_planned'' := Number NaN,
                 ''dh3_planned'' := String ''n/a'', ''dh5_planned'' := Number (Num 5)),
       auto_saved = None, saved_date = None\<rparr> Planned = 15 \<and>
   getFieldValue \<lparr>row_month = ''2024-03'',
       props = (\<lambda>k. Undefined)(''dh1_planned'' := Number (Num 10), ''dh2_planned'' := Number NaN,
                 ''dh3_planned'' := String ''n/a'', ''dh5_planned'' := Number (Num 5)),
       auto_saved = None, saved_date = None\<rparr> ''dh1'' Planned = 10 \<and>
   getFieldValue \<lparr>row_month = ''2024-03'',
       props = (\<lambda>k. Undefined)(''dh1_planned'' := Number (Num 10), ''dh2_planned'' := Number NaN,
                 ''dh3_planned'' := String ''n/a'', ''dh5_planned'' := Number (Num 5)),
       auto_saved = None, saved_date = None\<rparr> ''total'' Planned = 15"
proof -
  let ?row = "\<lparr>row_month = ''2024-03'',
       props = (\<lambda>k. Undefined)(''dh1_planned'' := Number (Num 10), ''dh2_planned'' := Number NaN,
                 ''dh3_planned'' := String ''n/a'', ''dh5_planned'' := Number (Num 5)),
       auto_saved = None, saved_date = None\<rparr>"
  have h: "''dh1'' \<noteq> ''total''" by simp
  note t = sumForRow_sums_the_five_zones[of ?row Planned "''dh1''"]
  from t have s: "sumForRow ?row Planned = 15" by (simp add: field_key_def)
  from t h have "getFieldValue ?row ''dh1'' Planned = number_or_zero (props ?row (field_key ''dh1'' Planned))"
    by blast
  then have g: "getFieldValue ?row ''dh1'' Planned = 10" by (simp add: field_key_def)
  from t s have "getFieldValue ?row ''total'' Planned = 15" by simp
  with h s g show ?thesis by blast
qed

lemma those_map_Some: "(\<And>x. x \<in> set xs \<Longrightarrow> f x = Some (g x)) \<Longrightarrow> those (map f xs) = Some (map g xs)"
  by (induction xs) simp_all

lemma zone_cell_plain: "plain v \<Longrightarrow> zone_cell v = Some (toFixed2 (Num (number_or_zero v)))"
  by (cases v rule: plain.cases) simp_all

lemma csv_row_plain:
  assumes "\<And>key. key \<in> set zone_columns \<Longrightarrow> plain (props row key)"
  shows "csv_row row =
     Some (Text (row_month row) #
           map (\<lambda>key. toFixed2 (Num (number_or_zero (props row key)))) zone_columns @
           [toFixed2 (Num (sumForRow row Planned)), toFixed2 (Num (sumForRow row Live)),
            toFixed2 (Num (sumForRow row Maximum)), toFixed2 (Num (sumForRow row Available)),
            Text (if auto_saved row = Some True then ''Yes'' else ''No''),
            Text (case saved_date row of None \<Rightarrow> '''' | Some d \<Rightarrow> d)])"
proof -
  have "those (map (\<lambda>key. zone_cell (props row key)) zone_columns) =
        Some (map (\<lambda>key. toFixed2 (Num (number_or_zero (props row key)))) zone_columns)"
    using assms by (intro those_map_Some) (simp add: zone_cell_plain)
  then show ?thesis by (simp add: csv_row_def Let_def)
qed

lemma toFixed2_shape:
  "(\<exists>s. toFixed2 (Num x) = Text s \<and> two_decimals s) \<or>
   (toFixed2 (Num x) = Exponential x \<and> 10 ^ 21 \<le> \<bar>x\<bar>)"
  by (simp add: two_decimals_fixed2)

lemma length_zone_columns: "length zone_columns = 20"
  by (simp add: zone_columns_def)

lemma expected_cells_nth:
  "length (expected_cells row) = 27"
  "expected_cells row ! 0 = Text (row_month row)"
  "j < 20 \<Longrightarrow> expected_cells row ! (j + 1) = toFixed2 (Num (number_or_zero (props row (zone_columns ! j))))"
  "expected_cells row ! 21 = toFixed2 (Num (sumForRow row Planned))"
  "expected_cells row ! 22 = toFixed2 (Num (sumForRow row Live))"
  "expected_cells row ! 23 = toFixed2 (Num (sumForRow row Maximum))"
  "expected_cells row ! 24 = toFixed2 (Num (sumForRow row Available))"
  "expected_cells row ! 25 = Text (if auto_saved row = Some True then ''Yes'' else ''No'')"
  "expected_cells row ! 26 = Text (case saved_date row of None \<Rightarrow> '''' | Some d \<Rightarrow> d)"
proof -
  let ?z = "map (\<lambda>key. toFixed2 (Num (number_or_zero (props row key)))) zone_columns"
  have l: "length ?z = 20" using length_zone_columns by simp
  show "length (expected_cells row) = 27" by (simp add: expected_cells_def length_zone_columns)
  show "expected_cells row ! 0 = Text (row_month row)" by (simp add: expected_cells_def)
  show "expected_cells row ! (j + 1) = toFixed2 (Num (number_or_zero (props row (zone_columns ! j))))"
    if "j < 20" using that by (simp add: expected_cells_def nth_append length_zone_columns)
  have t: "expected_cells row ! (21 + i) = (?z @ [toFixed2 (Num (sumForRow row Planned)), toFixed2 (Num (sumForRow row Live)),
      toFixed2 (Num (sumForRow row Maximum)), toFixed2 (Num (sumForRow row Available)),
      Text (if auto_saved row = Some True then ''Yes'' else ''No''),
      Text (case saved_date row of None \<Rightarrow> '''' | Some d \<Rightarrow> d)]) ! (20 + i)" for i
    by (simp add: expected_cells_def)
  show "expected_cells row ! 21 = toFixed2 (Num (sumForRow row Planned))"
    using t[of 0] by (simp add: nth_append length_zone_columns)
  show "expected_cells row ! 22 = toFixed2 (Num (sumForRow row Live))"
    using t[of 1] by (simp add: nth_append length_zone_columns)
  show "expected_cells row ! 23 = toFixed2 (Num (sumForRow row Maximum))"
    using t[of 2] by (simp add: nth_append length_zone_columns)
  show "expected_cells row ! 24 = toFixed2 (Num (sumForRow row Available))"
    using t[of 3] by (simp add: nth_append length_zone_columns)
  show "expected_cells row ! 25 = Text (if auto_saved row = Some True then ''Yes'' else ''No'')"
    using t[of 4] by (simp add: nth_append length_zone_columns)
  show "expected_cells row ! 26 = Text (case saved_date row of None \<Rightarrow> '''' | Some d \<Rightarrow> d)"
    using t[of 5] by (simp add: nth_append length_zone_columns)
qed

lemma download_plain:
  assumes "historyData \<noteq> []"
    and "\<And>row key. row \<in> set historyData \<Longrightarrow> key \<in> set zone_columns \<Longrightarrow> plain (props row key)"
  shows "downloadHistoryCSV historyData = Download headers (map expected_cells historyData)"
proof -
  have "those (map csv_row historyData) = Some (map expected_cells historyData)"
    using assms(2) by (intro those_map_Some) (simp add: csv_row_plain expected_cells_def)
  then show ?thesis using assms(1) by (simp add: downloadHistoryCSV_def)
qed

lemma numeric_cell_shape:
  assumes "1 \<le> j" "j \<le> 24"
  shows "(\<exists>s. expected_cells row ! j = Text s \<and> two_decimals s) \<or>
         (\<exists>x. expected_cells row ! j = Exponential x \<and> 10 ^ 21 \<le> \<bar>x\<bar>)"
proof -
  have sh: "(\<exists>s. c = Text s \<and> two_decimals s) \<or> (\<exists>x. c = Exponential x \<and> 10 ^ 21 \<le> \<bar>x\<bar>)"
    if "c = toFixed2 (Num y)" for c y
    using toFixed2_shape[of y] that by auto
  show ?thesis
  proof (cases "j \<le> 20")
    case True
    then have "j - 1 < 20" "j = (j - 1) + 1" using assms by auto
    then have "expected_cells row ! j = toFixed2 (Num (number_or_zero (props row (zone_columns ! (j - 1)))))"
      using expected_cells_nth(3)[of "j - 1" row] by simp
    then show ?thesis by (rule sh)
  next
    case False
    then consider "j = 21" | "j = 22" | "j = 23" | "j = 24" using assms by linarith
    then show ?thesis
    proof cases
      case 1 then show ?thesis using sh[OF expected_cells_nth(4)[of row]] by simp
    next
      case 2 then show ?thesis using sh[OF expected_cells_nth(5)[of row]] by simp
    next
      case 3 then show ?thesis using sh[OF expected_cells_nth(6)[of row]] by simp
    next
      case 4 then show ?thesis using sh[OF expected_cells_nth(7)[of row]] by simp
    qed
  qed
qed

text \<open>
  Claim C9, as amended. For a history that is not empty and whose zone values are all
  finite numbers or absent, the export produces the header and one row per history
  record, in order. A row has 27 cells: the month; the twenty zone values, each through
  \<open>toFixed(2)\<close> (0 for an absent value); the four totals, each the \<open>toFixed(2)\<close>
  rendering of \<open>sumForRow\<close>, the sum of the five zone values (the rendering of the
  sum, which need not be the sum of the rendered zone cells); \<open>Yes\<close> or \<open>No\<close> for
  the auto-saved flag; and the saved date, empty when it is missing. Every numeric cell
  is a text with exactly two decimal places, unless the number reaches \<open>10^21\<close> in
  magnitude, where \<open>toFixed\<close> switches to exponent notation.
\<close>

theorem csv_rows_follow_history:
  assumes "historyData \<noteq> []"
    and "list_all (\<lambda>row. list_all (\<lambda>key. plain (props row key)) zone_columns) historyData"
  shows "\<exists>rows. downloadHistoryCSV historyData = Download headers rows \<and>
     length rows = length historyData \<and>
     (\<forall>i<length historyData.
        length (rows ! i) = 27 \<and>
        rows ! i ! 0 = Text (row_month (historyData ! i)) \<and>
        (\<forall>j<20. rows ! i ! (j + 1) =
           toFixed2 (Num (number_or_zero (props (historyData ! i) (zone_columns ! j))))) \<and>
        rows ! i ! 21 = toFixed2 (Num (sumForRow (historyData ! i) Planned)) \<and>
        rows ! i ! 22 = toFixed2 (Num (sumForRow (historyData ! i) Live)) \<and>
        rows ! i ! 23 = toFixed2 (Num (sumForRow (historyData ! i) Maximum)) \<and>
        rows ! i ! 24 = toFixed2 (Num (sumForRow (historyData ! i) Available)) \<and>
        (\<forall>f. sumForRow (historyData ! i) f =
           number_or_zero (props (historyData ! i) (field_key ''dh1'' f)) +
           number_or_zero (props (historyData ! i) (field_key ''dh2'' f)) +
           number_or_zero (props (historyData ! i) (field_key ''dh3'' f)) +
           number_or_zero (props (historyData ! i) (field_key ''dh4'' f)) +
           number_or_zero (props (historyData ! i) (field_key ''dh5'' f))) \<and>
        (\<forall>j. 1 \<le> j \<and> j \<le> 24 \<longrightarrow>
           (\<exists>s. rows ! i ! j = Text s \<and> two_decimals s) \<or>
           (\<exists>x. rows ! i ! j = Exponential x \<and> 10 ^ 21 \<le> \<bar>x\<bar>)) \<and>
        rows ! i ! 25 = Text (if auto_saved (historyData ! i) = Some True then ''Yes'' else ''No'') \<and>
        (saved_date (historyData ! i) = None \<longrightarrow> rows ! i ! 26 = Text '''') \<and>
        (\<forall>d. saved_date (historyData ! i) = Some d \<longrightarrow> rows ! i ! 26 = Text d))"
proof -
  let ?rows = "map expected_cells historyData"
  have d: "downloadHistoryCSV historyData = Download headers ?rows"
    using assms by (intro download_plain) (auto simp: list_all_iff)
  have r: "?rows ! i = expected_cells (historyData ! i)" if "i < length historyData" for i
    using that by simp
  have p: "length (expected_cells row) = 27 \<and>
        expected_cells row ! 0 = Text (row_month row) \<and>
        (\<forall>j<20. expected_cells row ! (j + 1) =
           toFixed2 (Num (number_or_zero (props row (zone_columns ! j))))) \<and>
        expected_cells row ! 21 = toFixed2 (Num (sumForRow row Planned)) \<and>
        expected_cells row ! 22 = toFixed2 (Num (sumForRow row Live)) \<and>
        expected_cells row ! 23 = toFixed2 (Num (sumForRow row Maximum)) \<and>
        expected_cells row ! 24 = toFixed2 (Num (sumForRow row Available)) \<and>
        (\<forall>f. sumForRow row f =
           number_or_zero (props row (field_key ''dh1'' f)) +
           number_or_zero (props row (field_key ''dh2'' f)) +
           number_or_zero (props row (field_key ''dh3'' f)) +
           number_or_zero (props row (field_key ''dh4'' f)) +
           number_or_zero (props row (field_key ''dh5'' f))) \<and>
        (\<forall>j. 1 \<le> j \<and> j \<le> 24 \<longrightarrow>
           (\<exists>s. expected_cells row ! j = Text s \<and> two_decimals s) \<or>
           (\<exists>x. expected_cells row ! j = Exponential x \<and> 10 ^ 21 \<le> \<bar>x\<bar>)) \<and>
        expected_cells row ! 25 = Text (if auto_saved row = Some True then ''Yes'' else ''No'') \<and>
        (saved_date row = None \<longrightarrow> expected_cells row ! 26 = Text '''') \<and>
        (\<forall>d. saved_date row = Some d \<longrightarrow> expected_cells row ! 26 = Text d)" for row
    using expected_cells_nth[where row = row] numeric_cell_shape[of _ row] sumForRow_five[of row]
    by (simp del: toFixed2.simps split: option.split)
  have q: "length (?rows ! i) = 27 \<and>
        ?rows ! i ! 0 = Text (row_month (historyData ! i)) \<and>
        (\<forall>j<20. ?rows ! i ! (j + 1) =
           toFixed2 (Num (number_or_zero (props (historyData ! i) (zone_columns ! j))))) \<and>
        ?rows ! i ! 21 = toFixed2 (Num (sumForRow (historyData ! i) Planned)) \<and>
        ?rows ! i ! 22 = toFixed2 (Num (sumForRow (historyData ! i) Live)) \<and>
        ?rows ! i ! 23 = toFixed2 (Num (sumForRow (historyData ! i) Maximum)) \<and>
        ?rows ! i ! 24 = toFixed2 (Num (sumForRow (historyData ! i) Available)) \<and>
        (\<forall>f. sumForRow (historyData ! i) f =
           number_or_zero (props (historyData ! i) (field_key ''dh1'' f)) +
           number_or_zero (props (historyData ! i) (field_key ''dh2'' f)) +
           number_or_zero (props (historyData ! i) (field_key ''dh3'' f)) +
           number_or_zero (props (historyData ! i) (field_key ''dh4'' f)) +
           number_or_zero (props (historyData ! i) (field_key ''dh5'' f))) \<and>
        (\<forall>j. 1 \<le> j \<and> j \<le> 24 \<longrightarrow>
           (\<exists>s. ?rows ! i ! j = Text s \<and> two_decimals s) \<or>
           (\<exists>x. ?rows ! i ! j = Exponential x \<and> 10 ^ 21 \<le> \<bar>x\<bar>)) \<and>
        ?rows ! i ! 25 = Text (if auto_saved (historyData ! i) = Some True then ''Yes'' else ''No'') \<and>
        (saved_date (historyData ! i) = None \<longrightarrow> ?rows ! i ! 26 = Text '''') \<and>
        (\<forall>d. saved_date (historyData ! i) = Some d \<longrightarrow> ?rows ! i ! 26 = Text d)"
    if "i < length historyData" for i
    unfolding r[OF that] by (rule p)
  have "length ?rows = length historyData" by simp
  with d q show ?thesis by blast
qed

lemma fixed2_values: "fixed2 0 = ''0.00''" "fixed2 (1 / 250) = ''0.00''" "fixed2 (1 / 50) = ''0.02''"
  by (simp_all add: fixed2_def)

lemma small_loads_sums:
  "sumForRow small_loads_row Planned = 1 / 50" "sumForRow small_loads_row Live = 0"
  "sumForRow small_loads_row Maximum = 0" "sumForRow small_loads_row Available = 0"
  by (simp_all add: sumForRow_def dhKeys_def field_key_def small_loads_row_def)

lemma small_loads_zones:
  "those (map (\<lambda>key. zone_cell (props small_loads_row key)) zone_columns) =
     Some [Text ''0.00'', Text ''0.00'', Text ''0.00'', Text ''0.00'',
           Text ''0.00'', Text ''0.00'', Text ''0.00'', Text ''0.00'',
           Text ''0.00'', Text ''0.00'', Text ''0.00'', Text ''0.00'',
           Text ''0.00'', Text ''0.00'', Text ''0.00'', Text ''0.00'',
           Text ''0.00'', Text ''0.00'', Text ''0.00'', Text ''0.00'']"
  by (simp add: zone_columns_def small_loads_row_def fixed2_values)

text \<open>
  Against claim C9 as stated: with 0.004 kW planned in each of the five zones the five
  planned cells read \<open>0.00\<close> and the total planned cell reads \<open>0.02\<close>, which is not
  the sum of the five zone cells.
\<close>

theorem total_cell_is_not_sum_of_zone_cells:
  "downloadHistoryCSV [small_loads_row] =
     Download headers
      [[Text ''2024-03'',
        Text ''0.00'', Text ''0.00'', Text ''0.00'', Text ''0.00'',
        Text ''0.00'', Text ''0.00'', Text ''0.00'', Text ''0.00'',
        Text ''0.00'', Text ''0.00'', Text ''0.00'', Text ''0.00'',
        Text ''0.00'', Text ''0.00'', Text ''0.00'', Text ''0.00'',
        Text ''0.00'', Text ''0.00'', Text ''0.00'', Text ''0.00'',
        Text ''0.02'', Text ''0.00'', Text ''0.00'', Text ''0.00'',
        Text ''Yes'', Text '''']] \<and>
   number_of_text ''0.02'' \<noteq>
     number_of_text ''0.00'' + number_of_text ''0.00'' + number_of_text ''0.00'' +
     number_of_text ''0.00'' + number_of_text ''0.00''"
proof -
  have m: "row_month small_loads_row = ''2024-03''" "auto_saved small_loads_row = Some True"
    "saved_date small_loads_row = None"
    by (simp_all add: small_loads_row_def)
  have "csv_row small_loads_row =
     Some [Text ''2024-03'',
        Text ''0.00'', Text ''0.00'', Text ''0.00'', Text ''0.00'',
        Text ''0.00'', Text ''0.00'', Text ''0.00'', Text ''0.00'',
        Text ''0.00'', Text ''0.00'', Text ''0.00'', Text ''0.00'',
        Text ''0.00'', Text ''0.00'', Text ''0.00'', Text ''0.00'',
        Text ''0.00'', Text ''0.00'', Text ''0.00'', Text ''0.00'',
        Text ''0.02'', Text ''0.00'', Text ''0.00'', Text ''0.00'',
        Text ''Yes'', Text '''']"
    by (simp add: csv_row_def small_loads_zones small_loads_sums m fixed2_values)
  then have "downloadHistoryCSV [small_loads_row] =
     Download headers
      [[Text ''2024-03'',
        Text ''0.00'', Text ''0.00'', Text ''0.00'', Text ''0.00'',
        Text ''0.00'', Text ''0.00'', Text ''0.00'', Text ''0.00'',
        Text ''0.00'', Text ''0.00'', Text ''0.00'', Text ''0.00'',
        Text ''0.00'', Text ''0.00'', Text ''0.00'', Text ''0.00'',
        Text ''0.00'', Text ''0.00'', Text ''0.00'', Text ''0.00'',
        Text ''0.02'', Text ''0.00'', Text ''0.00'', Text ''0.00'',
        Text ''Yes'', Text '''']]"
    by (simp add: downloadHistoryCSV_def)
  moreover have "number_of_text ''0.02'' = 1 / 50" "number_of_text ''0.00'' = 0"
    by (simp_all add: number_of_text_def is_digit_def digit_value_def)
  ultimately show ?thesis by simp
qed

text \<open>The history made of that one row: one data row, its first planned cell
  \<open>0.00\<close>, its total planned cell \<open>0.02\<close>, \<open>Yes\<close> and an empty date.\<close>

theorem csv_rows_follow_history_witness:
  "[small_loads_row] \<noteq> [] \<and>
   list_all (\<lambda>row. list_all (\<lambda>key. plain (props row key)) zone_columns) [small_loads_row] \<and>
   (\<exists>rows. downloadHistoryCSV [small_loads_row] = Download headers rows \<and> length rows = 1 \<and>
      length (rows ! 0) = 27 \<and> rows ! 0 ! 0 = Text ''2024-03'' \<and>
      rows ! 0 ! 1 = Text ''0.00'' \<and> rows ! 0 ! 21 = Text ''0.02'' \<and>
      rows ! 0 ! 25 = Text ''Yes'' \<and> rows ! 0 ! 26 = Text '''')"
proof -
  have h1: "[small_loads_row] \<noteq> []" by simp
  have h2: "list_all (\<lambda>row. list_all (\<lambda>key. plain (props row key)) zone_columns) [small_loads_row]"
    by (simp add: zone_columns_def small_loads_row_def)
  from csv_rows_follow_history[OF h1 h2] obtain rows where
    d: "downloadHistoryCSV [small_loads_row] = Download headers rows"
    and l: "length rows = length [small_loads_row]"
    and p: "\<forall>i<length [small_loads_row].
        length (rows ! i) = 27 \<and>
        rows ! i ! 0 = Text (row_month ([small_loads_row] ! i)) \<and>
        (\<forall>j<20. rows ! i ! (j + 1) =
           toFixed2 (Num (number_or_zero (props ([small_loads_row] ! i) (zone_columns ! j))))) \<and>
        rows ! i ! 21 = toFixed2 (Num (sumForRow ([small_loads_row] ! i) Planned)) \<and>
        rows ! i ! 22 = toFixed2 (Num (sumForRow ([small_loads_row] ! i) Live)) \<and>
        rows ! i ! 23 = toFixed2 (Num (sumForRow ([small_loads_row] ! i) Maximum)) \<and>
        rows ! i ! 24 = toFixed2 (Num (sumForRow ([small_loads_row] ! i) Available)) \<and>
        (\<forall>f. sumForRow ([small_loads_row] ! i) f =
           number_or_zero (props ([small_loads_row] ! i) (field_key ''dh1'' f)) +
           number_or_zero (props ([small_loads_row] ! i) (field_key ''dh2'' f)) +
           number_or_zero (props ([small_loads_row] ! i) (field_key ''dh3'' f)) +
           number_or_zero (props ([small_loads_row] ! i) (field_key ''dh4'' f)) +
           number_or_zero (props ([small_loads_row] ! i) (field_key ''dh5'' f))) \<and>
        (\<forall>j. 1 \<le> j \<and> j \<le> 24 \<longrightarrow>
           (\<exists>s. rows ! i ! j = Text s \<and> two_decimals s) \<or>
           (\<exists>x. rows ! i ! j = Exponential x \<and> 10 ^ 21 \<le> \<bar>x\<bar>)) \<and>
        rows ! i ! 25 = Text (if auto_saved ([small_loads_row] ! i) = Some True then ''Yes'' else ''No'') \<and>
        (saved_date ([small_loads_row] ! i) = None \<longrightarrow> rows ! i ! 26 = Text '''') \<and>
        (\<forall>d. saved_date ([small_loads_row] ! i) = Some d \<longrightarrow> rows ! i ! 26 = Text d)"
    by blast
  from p have p0: "length (rows ! 0) = 27" "rows ! 0 ! 0 = Text (row_month small_loads_row)"
    "\<forall>j<20. rows ! 0 ! (j + 1) = toFixed2 (Num (number_or_zero (props small_loads_row (zone_columns ! j))))"
    "rows ! 0 ! 21 = toFixed2 (Num (sumForRow small_loads_row Planned))"
    "rows ! 0 ! 25 = Text (if auto_saved small_loads_row = Some True then ''Yes'' else ''No'')"
    "saved_date small_loads_row = None \<longrightarrow> rows ! 0 ! 26 = Text ''''"
    by simp_all
  have c0: "rows ! 0 ! 0 = Text ''2024-03''" using p0(2) by (simp add: small_loads_row_def)
  have "rows ! 0 ! (0 + 1) = toFixed2 (Num (number_or_zero (props small_loads_row (zone_columns ! 0))))"
    using p0(3)[THEN spec, of 0] by (simp del: toFixed2.simps)
  then have c1: "rows ! 0 ! 1 = Text ''0.00''"
    by (simp add: zone_columns_def small_loads_row_def fixed2_values)
  have c21: "rows ! 0 ! 21 = Text ''0.02''" using p0(4) by (simp add: small_loads_sums fixed2_values)
  have c25: "rows ! 0 ! 25 = Text ''Yes''" using p0(5) by (simp add: small_loads_row_def)
  have c26: "rows ! 0 ! 26 = Text ''''" using p0(6) by (simp add: small_loads_row_def)
  from d l p0(1) c0 c1 c21 c25 c26 h1 h2 show ?thesis by auto
qed

section \<open>Properties of the chart grouping\<close>

lemma upsert_map:
  assumes "distinct ks" and "\<And>k'. P (B k') \<longleftrightarrow> k' = k"
  shows "upsert P f new (map B ks) =
     (if k \<in> set ks then map (\<lambda>k'. if k' = k then f (B k) else B k') ks
      else map B ks @ [f new])"
  using assms(1)
proof (induction ks)
  case Nil
  show ?case by simp
next
  case (Cons a ks)
  then have d: "distinct ks" and a: "a \<notin> set ks" by simp_all
  show ?case
  proof (cases "a = k")
    case True
    then have "map (\<lambda>k'. if k' = k then f (B k) else B k') ks = map B ks"
      using a by (intro map_cong) auto
    then show ?thesis using True assms(2) by simp
  next
    case False
    then show ?thesis using Cons.IH[OF d] assms(2) by auto
  qed
qed

lemma reported_alt:
  "reported key_of data k l =
     (if filter (\<lambda>e. key_of (created e) = k \<and> location e = l) data = [] then None
      else Some (reading (last (filter (\<lambda>e. key_of (created e) = k \<and> location e = l) data))))"
  by (cases "filter (\<lambda>e. key_of (created e) = k \<and> location e = l) data")
    (simp_all add: reported_def)

lemma reported_snoc:
  "reported key_of (data @ [e]) k l =
     (if key_of (created e) = k \<and> location e = l then Some (reading e)
      else reported key_of data k l)"
  by (simp add: reported_alt)

lemma reported_none:
  "k \<notin> (\<lambda>e. key_of (created e)) ` set data \<Longrightarrow> reported key_of data k l = None"
proof -
  assume "k \<notin> (\<lambda>e. key_of (created e)) ` set data"
  then have "filter (\<lambda>e. key_of (created e) = k \<and> location e = l) data = []"
    by (auto simp: filter_empty_conv)
  then show ?thesis by (simp add: reported_def)
qed

lemma keys_of_snoc:
  "keys_of key_of (data @ [e]) =
     (if key_of (created e) \<in> set (keys_of key_of data) then keys_of key_of data
      else keys_of key_of data @ [key_of (created e)])"
  by (simp add: keys_of_def unique_snoc set_unique)

lemma set_keys_of: "set (keys_of key_of data) = (\<lambda>e. key_of (created e)) ` set data"
  by (simp add: keys_of_def set_unique)

lemma distinct_keys_of: "distinct (keys_of key_of data)"
  by (simp add: keys_of_def distinct_unique)

lemma group_step_buckets:
  assumes "location e \<noteq> ''created''" and p: "location e \<noteq> ''__proto__''"
  shows "group_step key_of (map (bucket_of key_of data) (keys_of key_of data)) e =
         map (bucket_of key_of (data @ [e])) (keys_of key_of (data @ [e]))"
proof -
  let ?k = "key_of (created e)" and ?l = "location e"
  let ?B = "bucket_of key_of data" and ?B' = "bucket_of key_of (data @ [e])"
  let ?f = "\<lambda>gp :: 'b bucket. if ?l = ''__proto__'' then gp else gp(?l \<mapsto> Reading (reading e))"
  have P: "(?B k' ''created'' = Some (Stamp ?k)) \<longleftrightarrow> k' = ?k" for k'
    by (simp add: bucket_of_def)
  have same: "?B' k' = ?B k'" if "k' \<noteq> ?k" for k'
    using that by (intro ext) (simp add: bucket_of_def reported_snoc)
  have upd: "?f (?B ?k) = ?B' ?k"
    using assms by (simp add: p) (intro ext, simp add: bucket_of_def reported_snoc)
  have new: "?f [''created'' \<mapsto> Stamp ?k] = ?B' ?k" if "?k \<notin> set (keys_of key_of data)"
  proof -
    have "reported key_of data ?k l = None" for l
      using that by (intro reported_none) (simp add: set_keys_of)
    then show ?thesis
      using assms by (simp add: p) (intro ext, simp add: bucket_of_def reported_snoc)
  qed
  have "group_step key_of (map ?B (keys_of key_of data)) e =
        upsert (\<lambda>g. g ''created'' = Some (Stamp ?k)) ?f [''created'' \<mapsto> Stamp ?k]
          (map ?B (keys_of key_of data))"
    unfolding group_step_def Let_def ..
  also have "\<dots> = (if ?k \<in> set (keys_of key_of data)
       then map (\<lambda>k'. if k' = ?k then ?f (?B ?k) else ?B k') (keys_of key_of data)
       else map ?B (keys_of key_of data) @ [?f [''created'' \<mapsto> Stamp ?k]])"
    by (rule upsert_map[where B = "?B" and k = "?k" and ks = "keys_of key_of data",
          OF distinct_keys_of P])
  also have "\<dots> = map ?B' (keys_of key_of (data @ [e]))"
  proof (cases "?k \<in> set (keys_of key_of data)")
    case True
    have "map (\<lambda>k'. if k' = ?k then ?f (?B ?k) else ?B k') (keys_of key_of data) =
          map ?B' (keys_of key_of data)"
      using upd same by (intro map_cong) auto
    then show ?thesis using True by (simp add: keys_of_snoc)
  next
    case False
    have "?B x = ?B' x" if "x \<in> set (keys_of key_of data)" for x
    proof -
      from that False have "x \<noteq> ?k" by blast
      then show ?thesis by (rule same[symmetric])
    qed
    then have "map ?B (keys_of key_of data) = map ?B' (keys_of key_of data)"
      by (intro map_cong) simp_all
    then show ?thesis using False new by (simp add: keys_of_snoc)
  qed
  finally show ?thesis .
qed

lemma grouped_buckets:
  assumes "''created'' \<notin> location ` set data" "''__proto__'' \<notin> location ` set data"
  shows "foldl (group_step key_of) [] data = map (bucket_of key_of data) (keys_of key_of data)"
  using assms
proof (induction data rule: rev_induct)
  case Nil
  show ?case by (simp add: keys_of_def unique_def)
next
  case (snoc e data)
  then have "location e \<noteq> ''created''" "location e \<noteq> ''__proto__''"
    and "''created'' \<notin> location ` set data" "''__proto__'' \<notin> location ` set data" by auto
  with snoc.IH group_step_buckets[of e key_of data] show ?case by simp
qed

lemma cfg_keys:
  "foldl cfg_step [] data = unique (filter (\<lambda>l. l \<notin> set inherited) (map location data))"
proof (induction data rule: rev_induct)
  case Nil
  show ?case by (simp add: unique_def)
next
  case (snoc e data)
  then show ?case by (simp add: cfg_step_def unique_snoc set_unique)
qed

















text \<open>
  When no reading's location is the string \<open>created\<close> or \<open>__proto__\<close>, the power chart
  has one bucket per distinct timestamp string, in the order the timestamps are first
  met, and a bucket holds the timestamp and, for each location that reported at it, the
  last reading; the keys of \<open>config\<close> are the locations that are no inherited name.
\<close>

lemma power_chart_eq:
  assumes "''created'' \<notin> location ` set data" "''__proto__'' \<notin> location ` set data"
  shows "power_chart data =
     (map (bucket_of (\<lambda>c. c) data) (keys_of (\<lambda>c. c) data),
      object_keys (unique (filter (\<lambda>l. l \<notin> set inherited) (map location data))))"
  using assms by (simp add: power_chart_def grouped_buckets cfg_keys)

text \<open>
  A location that bears an inherited name is never a key of the configuration, so the
  temperature chart shows no value for it, and under \<open>__proto__\<close> a bucket does not even
  hold the reading. Keys that are array indices are listed first, in numeric order.
\<close>

lemma inherited_name_is_left_out:
  "temperature_chart [\<lparr>created = 0, location = ''toString'', reading = JsonNum (Num 10)\<rparr>] =
     Some ([[''created'' \<mapsto> Stamp 0]], [])"
  "power_chart
     [\<lparr>created = ''2024-03-01T00:00:00Z'', location = ''__proto__'', reading = JsonNum (Num 5)\<rparr>,
      \<lparr>created = ''2024-03-01T00:00:00Z'', location = ''constructor'', reading = JsonNum (Num 6)\<rparr>] =
     ([[''created'' \<mapsto> Stamp ''2024-03-01T00:00:00Z'',
        ''constructor'' \<mapsto> Reading (JsonNum (Num 6))]], [])"
  by (simp_all add: temperature_chart_def power_chart_def group_step_def cfg_step_def
      normalizeTime_def Let_def instant_def averaged_point_def average_step_def sample_def
      inherited_def object_keys_def array_index_def is_digit_def)

lemma index_keys_come_first:
  "object_keys [''b'', ''10'', ''9'', ''01''] = [''9'', ''10'', ''b'', ''01'']"
  by (simp add: object_keys_def array_index_def is_digit_def digit_value_def)











lemma created_collision:
  "power_chart
      [\<lparr>created = ''2024-03-01T00:00:00Z'', location = ''created'', reading = JsonNum (Num 5)\<rparr>,
       \<lparr>created = ''2024-03-01T00:00:00Z'', location = ''a'', reading = JsonNum (Num 1)\<rparr>] =
     ([[''created'' \<mapsto> Reading (JsonNum (Num 5))],
       [''created'' \<mapsto> Stamp ''2024-03-01T00:00:00Z'', ''a'' \<mapsto> Reading (JsonNum (Num 1))]],
      [''created'', ''a''])"
  by (simp add: power_chart_def group_step_def cfg_step_def Let_def inherited_def
      object_keys_def array_index_def is_digit_def)

text \<open>The properties of such a bucket are \<open>created\<close> and exactly the locations that
  reported at its key.\<close>

lemma bucket_of_dom:
  "dom (bucket_of key_of data k) =
     insert ''created'' {l. \<exists>e \<in> set data. key_of (created e) = k \<and> location e = l}"
proof -
  have "(reported key_of data k l \<noteq> None) \<longleftrightarrow>
        (\<exists>e \<in> set data. key_of (created e) = k \<and> location e = l)" for l
    by (auto simp: reported_alt filter_empty_conv)
  then show ?thesis
    by (auto simp: bucket_of_def dom_def split: if_splits)
qed



text \<open>
  Claim C8 at a reading whose location is the string \<open>created\<close>: the assignment
  \<open>gp[entry.location] = entry.reading\<close> replaces the bucket's timestamp by the
  reading, the next reading of the same timestamp finds no bucket and a second one is
  pushed. Two readings with one timestamp give two buckets, and the first one has lost
  its timestamp.
\<close>

theorem power_chart_location_created_splits_timestamp:
  "power_chart
      [\<lparr>created = ''2024-03-01T00:00:00Z'', location = ''created'', reading = JsonNum (Num 5)\<rparr>,
       \<lparr>created = ''2024-03-01T00:00:00Z'', location = ''a'', reading = JsonNum (Num 1)\<rparr>] =
     ([[''created'' \<mapsto> Reading (JsonNum (Num 5))],
       [''created'' \<mapsto> Stamp ''2024-03-01T00:00:00Z'', ''a'' \<mapsto> Reading (JsonNum (Num 1))]],
      [''created'', ''a'']) \<and>
   keys_of (\<lambda>c. c)
      [\<lparr>created = ''2024-03-01T00:00:00Z'', location = ''created'', reading = JsonNum (Num 5)\<rparr>,
       \<lparr>created = ''2024-03-01T00:00:00Z'', location = ''a'', reading = JsonNum (Num 1)\<rparr>] =
     [''2024-03-01T00:00:00Z''] \<and>
   length (fst (power_chart
      [\<lparr>created = ''2024-03-01T00:00:00Z'', location = ''created'', reading = JsonNum (Num 5)\<rparr>,
       \<lparr>created = ''2024-03-01T00:00:00Z'', location = ''a'', reading = JsonNum (Num 1)\<rparr>])) = 2"
  by (simp add: created_collision) (simp add: keys_of_def unique_def)

end
